theory Spec2Isabelle
  imports Main "HOL-Library.Sublist"
begin

section \<open>Values thrown and caught\<close>

text \<open>
  A JavaScript \<^verbatim>\<open>throw\<close> may carry any value. The queue only asks whether the value is an
  \<^verbatim>\<open>Error\<close> instance: \<open>ErrorObj m\<close> is an Error object with message \<open>m\<close>, \<open>NonError s\<close> any
  other value, whose \<^verbatim>\<open>String(...)\<close> rendering is \<open>s\<close>.
\<close>

datatype thrown = ErrorObj string | NonError string

text \<open>\<^verbatim>\<open>error instanceof Error ? error : new Error(String(error))\<close>\<close>

definition toError :: "thrown \<Rightarrow> thrown" where
  "toError e = (case e of ErrorObj m \<Rightarrow> ErrorObj m | NonError s \<Rightarrow> ErrorObj s)"

section \<open>The in-memory queue (services/queueService.ts, class InMemoryQueue)\<close>

subsection \<open>Job options and the backoff policy\<close>

text \<open>
  \<^verbatim>\<open>Queue.JobOptions['backoff']\<close> is \<^verbatim>\<open>number | { type: string; delay?: number } | undefined\<close>.
  Numbers are modelled as integers: attempt counts and millisecond delays are whole numbers
  wherever this repository writes them, and far below the size at which a JavaScript number
  stops being exact.
\<close>

datatype backoff = BackoffNumber int | BackoffOptions string "int option"

record job_options =
  attempts :: "int option"
  backoff :: "backoff option"

definition no_options :: job_options where
  "no_options = \<lparr>attempts = None, backoff = None\<rparr>"

text \<open>
  \<^verbatim>\<open>getBackoffDelay(backoff, attempt)\<close>. \<^verbatim>\<open>!backoff\<close> holds for \<^verbatim>\<open>undefined\<close> and for the number
  \<^verbatim>\<open>0\<close>. The only caller passes the loop variable, which is at least 1; \<^verbatim>\<open>2 ** (attempt - 1)\<close>
  is then the whole power \<open>2 ^ nat (attempt - 1)\<close>.
\<close>

definition getBackoffDelay :: "backoff option \<Rightarrow> int \<Rightarrow> int" where
  "getBackoffDelay b attempt =
     (case b of
        None \<Rightarrow> 0
      | Some (BackoffNumber d) \<Rightarrow> (if d = 0 then 0 else d)
      | Some (BackoffOptions ty dl) \<Rightarrow>
          (let baseDelay = (case dl of Some d \<Rightarrow> d | None \<Rightarrow> 0)
           in if ty = ''exponential'' then baseDelay * 2 ^ nat (attempt - 1)
              else baseDelay))"

subsection \<open>Jobs, handlers, listeners\<close>

text \<open>\<^verbatim>\<open>QueueJobLike<T>\<close>; the field \<^verbatim>\<open>id\<close> is written \<open>job_id\<close>.\<close>

record 'a queue_job =
  job_id :: nat
  data :: 'a

text \<open>
  The handler is user code. What the queue observes of one invocation is whether the call
  throws at once, or returns a promise (or a plain value) that the \<^verbatim>\<open>await\<close> later finds
  fulfilled or rejected. A handler is modelled by what its invocation for a given job and
  attempt number does; it is taken not to call back into the queue.
\<close>

datatype settle = Throws thrown | Resolves | Rejects thrown

type_synonym 'a handler = "'a queue_job \<Rightarrow> int \<Rightarrow> settle"

datatype 'a largs =
    CompletedArgs "'a queue_job"
  | FailedArgs "'a queue_job" thrown
  | ErrorArgs thrown

text \<open>A listener returns (\<open>None\<close>) or throws (\<open>Some e\<close>); its name identifies it in the trace.\<close>

record 'a listener =
  lname :: string
  lbody :: "'a largs \<Rightarrow> thrown option"

record 'a listeners =
  on_completed :: "'a listener list"
  on_failed :: "'a listener list"
  on_error :: "'a listener list"

datatype event_name = Completed | Failed | Error

record counts =
  waiting :: int
  active :: int
  completed :: int
  failed :: int
  delayed :: int
  paused :: int

text \<open>What an observer of the queue sees happen, in order.\<close>

datatype 'a trace_event =
    HandlerCalled "'a queue_job" int
  | ListenerCalled string "'a largs"
  | Slept int
  | Unhandled thrown

text \<open>
  \<^verbatim>\<open>execute\<close> is an async function: it runs until an \<^verbatim>\<open>await\<close>, parks there, and is resumed
  later. A parked execution keeps its local variables.
\<close>

datatype await_point = AwaitHandler "thrown option" | AwaitSleep

record 'a task =
  t_job :: "'a queue_job"
  t_options :: job_options
  t_attempts :: int
  t_attempt :: int
  t_lastError :: "thrown option"
  t_at :: await_point

datatype outcome = Fulfilled | Rejected thrown

datatype 'a progress = Suspended "'a task" | Finished outcome

text \<open>
  The fields of the class, and two more that the class does not have: \<open>trace\<close> records what
  happens, and \<open>inflight\<close> holds the executions that are parked at an \<^verbatim>\<open>await\<close>, which in the
  program are kept by the event loop.
\<close>

record 'a in_memory_queue =
  nextId :: nat
  handler :: "'a handler option"
  pending :: "('a queue_job \<times> job_options) list"
  listeners :: "'a listeners"
  counts :: counts
  trace :: "'a trace_event list"
  inflight :: "'a task list"

definition new_queue :: "'a in_memory_queue" where
  "new_queue =
     \<lparr>nextId = 1, handler = None, pending = [],
      listeners = \<lparr>on_completed = [], on_failed = [], on_error = []\<rparr>,
      counts = \<lparr>waiting = 0, active = 0, completed = 0, failed = 0, delayed = 0, paused = 0\<rparr>,
      trace = [], inflight = []\<rparr>"

text \<open>\<^verbatim>\<open>on(event, listener)\<close>: \<^verbatim>\<open>this.listeners[event].push(listener)\<close>\<close>

definition on :: "event_name \<Rightarrow> 'a listener \<Rightarrow> 'a in_memory_queue \<Rightarrow> 'a in_memory_queue" where
  "on ev l q =
     (case ev of
        Completed \<Rightarrow> q\<lparr>listeners := (listeners q)\<lparr>on_completed := on_completed (listeners q) @ [l]\<rparr>\<rparr>
      | Failed \<Rightarrow> q\<lparr>listeners := (listeners q)\<lparr>on_failed := on_failed (listeners q) @ [l]\<rparr>\<rparr>
      | Error \<Rightarrow> q\<lparr>listeners := (listeners q)\<lparr>on_error := on_error (listeners q) @ [l]\<rparr>\<rparr>)"

text \<open>\<^verbatim>\<open>getJobCounts()\<close>: a copy of the counters.\<close>

definition getJobCounts :: "'a in_memory_queue \<Rightarrow> counts" where
  "getJobCounts q = counts q"

text \<open>
  \<^verbatim>\<open>ls.forEach((listener) => listener(...))\<close>: the listeners are called in registration order;
  the first one that throws ends the iteration and the exception leaves \<^verbatim>\<open>forEach\<close>.
\<close>

fun forEach :: "'a listener list \<Rightarrow> 'a largs \<Rightarrow> 'a trace_event list \<Rightarrow> thrown option \<times> 'a trace_event list" where
  "forEach [] args tr = (None, tr)"
| "forEach (l # ls) args tr =
     (case lbody l args of
        Some e \<Rightarrow> (Some e, tr @ [ListenerCalled (lname l) args])
      | None \<Rightarrow> forEach ls args (tr @ [ListenerCalled (lname l) args]))"

subsection \<open>execute\<close>

text \<open>The first statements of the \<^verbatim>\<open>try\<close> block: the handler check and the handler call.\<close>

definition invoke :: "'a queue_job \<Rightarrow> int \<Rightarrow> 'a in_memory_queue \<Rightarrow> settle \<times> 'a in_memory_queue" where
  "invoke job attempt q =
     (case handler q of
        None \<Rightarrow> (Throws (ErrorObj ''Queue processor is not configured''), q)
      | Some h \<Rightarrow> (h job attempt, q\<lparr>trace := trace q @ [HandlerCalled job attempt]\<rparr>))"

text \<open>The statements after the loop: the job has failed.\<close>

definition after_loop ::
  "'a queue_job \<Rightarrow> thrown option \<Rightarrow> 'a in_memory_queue \<Rightarrow> 'a progress \<times> 'a in_memory_queue" where
  "after_loop job lastError q =
     (let q1 = q\<lparr>counts := (counts q)\<lparr>active := max 0 (active (counts q) - 1),
                                      failed := failed (counts q) + 1\<rparr>\<rparr>;
          error = (case lastError of Some e \<Rightarrow> e | None \<Rightarrow> ErrorObj ''Queue job failed'')
      in case forEach (on_failed (listeners q1)) (FailedArgs job error) (trace q1) of
           (Some e, tr) \<Rightarrow> (Finished (Rejected e), q1\<lparr>trace := tr\<rparr>)
         | (None, tr) \<Rightarrow>
             (case forEach (on_error (listeners q1)) (ErrorArgs error) tr of
                (Some e, tr') \<Rightarrow> (Finished (Rejected e), q1\<lparr>trace := tr'\<rparr>)
              | (None, tr') \<Rightarrow> (Finished Fulfilled, q1\<lparr>trace := tr'\<rparr>)))"

text \<open>
  \<open>loop_head\<close> is the \<^verbatim>\<open>for\<close> loop entered at its condition with the given value of
  \<^verbatim>\<open>attempt\<close>; \<open>on_catch\<close> is the \<^verbatim>\<open>catch\<close> block. Both run until the execution parks at an
  \<^verbatim>\<open>await\<close> or finishes.
\<close>

function
  loop_head :: "'a queue_job \<Rightarrow> job_options \<Rightarrow> int \<Rightarrow> int \<Rightarrow> thrown option \<Rightarrow>
      'a in_memory_queue \<Rightarrow> 'a progress \<times> 'a in_memory_queue" and
  on_catch :: "'a queue_job \<Rightarrow> job_options \<Rightarrow> int \<Rightarrow> int \<Rightarrow> thrown \<Rightarrow>
      'a in_memory_queue \<Rightarrow> 'a progress \<times> 'a in_memory_queue"
where
  "loop_head job options n attempt lastError q =
     (if attempt \<le> n then
        (case invoke job attempt q of
           (Throws e, q1) \<Rightarrow> on_catch job options n attempt e q1
         | (Resolves, q1) \<Rightarrow>
             (Suspended \<lparr>t_job = job, t_options = options, t_attempts = n, t_attempt = attempt,
                         t_lastError = lastError, t_at = AwaitHandler None\<rparr>, q1)
         | (Rejects e, q1) \<Rightarrow>
             (Suspended \<lparr>t_job = job, t_options = options, t_attempts = n, t_attempt = attempt,
                         t_lastError = lastError, t_at = AwaitHandler (Some e)\<rparr>, q1))
      else after_loop job lastError q)"
| "on_catch job options n attempt e q =
     (let lastError = toError e in
      if attempt < n then
        (let delay = getBackoffDelay (backoff options) attempt in
         if delay > 0 then
           (Suspended \<lparr>t_job = job, t_options = options, t_attempts = n, t_attempt = attempt,
                       t_lastError = Some lastError, t_at = AwaitSleep\<rparr>,
            q\<lparr>counts := (counts q)\<lparr>delayed := delayed (counts q) + 1\<rparr>,
              trace := trace q @ [Slept delay]\<rparr>)
         else loop_head job options n (attempt + 1) (Some lastError) q)
      else loop_head job options n (attempt + 1) (Some lastError) q)"
  by pat_completeness auto
termination
  by (relation "measure (\<lambda>x. case x of
        Inl (job, options, n, attempt, lastError, q) \<Rightarrow>
          (if attempt \<le> n then 2 * nat (n + 1 - attempt) + 2 else 0)
      | Inr (job, options, n, attempt, e, q) \<Rightarrow> 2 * nat (n + 1 - attempt) + 1)") auto

declare loop_head.simps [simp del] on_catch.simps [simp del]

text \<open>Resuming a parked execution with the value its \<^verbatim>\<open>await\<close> produced.\<close>

definition resume :: "'a task \<Rightarrow> 'a in_memory_queue \<Rightarrow> 'a progress \<times> 'a in_memory_queue" where
  "resume t q =
     (case t_at t of
        AwaitSleep \<Rightarrow>
          loop_head (t_job t) (t_options t) (t_attempts t) (t_attempt t + 1) (t_lastError t)
            (q\<lparr>counts := (counts q)\<lparr>delayed := max 0 (delayed (counts q) - 1)\<rparr>\<rparr>)
      | AwaitHandler (Some e) \<Rightarrow>
          on_catch (t_job t) (t_options t) (t_attempts t) (t_attempt t) e q
      | AwaitHandler None \<Rightarrow>
          (let q1 = q\<lparr>counts := (counts q)\<lparr>active := max 0 (active (counts q) - 1),
                                           completed := completed (counts q) + 1\<rparr>\<rparr>
           in case forEach (on_completed (listeners q1)) (CompletedArgs (t_job t)) (trace q1) of
                (Some e, tr) \<Rightarrow>
                  on_catch (t_job t) (t_options t) (t_attempts t) (t_attempt t) e (q1\<lparr>trace := tr\<rparr>)
              | (None, tr) \<Rightarrow> (Finished Fulfilled, q1\<lparr>trace := tr\<rparr>)))"

text \<open>The part of \<^verbatim>\<open>execute(job, options)\<close> that runs before its first \<^verbatim>\<open>await\<close>.\<close>

definition execute_start ::
  "'a queue_job \<Rightarrow> job_options \<Rightarrow> 'a in_memory_queue \<Rightarrow> 'a progress \<times> 'a in_memory_queue" where
  "execute_start job options q =
     (let q1 = q\<lparr>counts := (counts q)\<lparr>waiting := max 0 (waiting (counts q) - 1),
                                      active := active (counts q) + 1\<rparr>\<rparr>;
          n = max 1 (case attempts options of Some a \<Rightarrow> a | None \<Rightarrow> 1)
      in loop_head job options n 1 None q1)"


subsection \<open>Running a parked execution to its end\<close>

text \<open>
  Every resumption of a parked execution brings it closer to its end: the attempt number
  never exceeds \<^verbatim>\<open>attempts\<close> while parked, it never decreases, and between two handler
  calls there is at most one sleep.
\<close>

definition task_measure :: "'a task \<Rightarrow> nat" where
  "task_measure t =
     2 * nat (t_attempts t + 1 - t_attempt t) +
     (case t_at t of AwaitHandler _ \<Rightarrow> 2 | AwaitSleep \<Rightarrow> 1)"

lemma after_loop_finishes: "after_loop job lastError q \<noteq> (Suspended t, q')"
  by (auto simp: after_loop_def Let_def split: prod.splits option.splits)

lemma loop_suspends_within:
  "loop_head job options n attempt lastError q = (Suspended t, q') \<Longrightarrow>
      attempt \<le> t_attempt t \<and> t_attempt t \<le> n \<and> t_attempts t = n"
  and catch_suspends_within:
  "on_catch job options n attempt e q = (Suspended t, q') \<Longrightarrow>
      (t_at t = AwaitSleep \<and> t_attempt t = attempt \<or> attempt < t_attempt t) \<and>
      t_attempt t \<le> n \<and> t_attempts t = n"
proof (induction job options n attempt lastError q and job options n attempt e q
    arbitrary: t q' and t q' rule: loop_head_on_catch.induct)
  case (1 job options n attempt lastError q)
  from "1.prems" show ?case
    apply (subst (asm) loop_head.simps)
    apply (auto simp: after_loop_finishes split: prod.splits settle.splits if_splits dest: "1.IH")
    done
next
  case (2 job options n attempt e q)
  show ?case
  proof (cases "attempt < n \<and> 0 < getBackoffDelay (backoff options) attempt")
    case True
    with "2.prems" show ?thesis
      by (subst (asm) on_catch.simps) (auto simp: Let_def)
  next
    case False
    with "2.prems" have run:
      "loop_head job options n (attempt + 1) (Some (toError e)) q = (Suspended t, q')"
      by (subst (asm) on_catch.simps) (auto simp: Let_def split: if_splits)
    have "attempt + 1 \<le> t_attempt t \<and> t_attempt t \<le> n \<and> t_attempts t = n"
    proof (cases "attempt < n")
      case True
      with False run "2.IH"(1)[OF refl True refl] show ?thesis by simp
    next
      case False
      with run "2.IH"(2)[OF refl False] show ?thesis by simp
    qed
    then show ?thesis by simp
  qed
qed

lemma resume_decreases:
  "resume t q = (Suspended t', q') \<Longrightarrow> task_measure t' < task_measure t"
  by (auto simp: resume_def task_measure_def Let_def
      split: await_point.splits option.splits prod.splits
      dest!: loop_suspends_within catch_suspends_within)

function drive :: "'a progress \<Rightarrow> 'a in_memory_queue \<Rightarrow> outcome \<times> 'a in_memory_queue" where
  "drive (Finished r) q = (r, q)"
| "drive (Suspended t) q = (case resume t q of (p, q') \<Rightarrow> drive p q')"
  by pat_completeness auto
termination
proof (relation "measure (\<lambda>(p, q). case p of Finished _ \<Rightarrow> 0 | Suspended t \<Rightarrow> Suc (task_measure t))")
  show "wf (measure (\<lambda>(p, q). case p of Finished _ \<Rightarrow> 0 | Suspended t \<Rightarrow> Suc (task_measure t)))"
    by simp
next
  fix t :: "'a task" and q x y
  assume "(x, y) = resume t q"
  then have r: "resume t q = (x, y)" by simp
  show "((x, y), Suspended t, q) \<in>
      measure (\<lambda>(p, q). case p of Finished _ \<Rightarrow> 0 | Suspended t \<Rightarrow> Suc (task_measure t))"
    using resume_decreases[of t q _ y] r by (cases x) auto
qed

text \<open>
  \<^verbatim>\<open>execute(job, options)\<close> run alone, from its first statement until its promise settles:
  no other execution touches the counters in between.
\<close>

definition finish :: "'a progress \<times> 'a in_memory_queue \<Rightarrow> outcome \<times> 'a in_memory_queue" where
  "finish pq = drive (fst pq) (snd pq)"

definition execute ::
  "'a queue_job \<Rightarrow> job_options \<Rightarrow> 'a in_memory_queue \<Rightarrow> outcome \<times> 'a in_memory_queue" where
  "execute job options q = finish (execute_start job options q)"

subsection \<open>add and process\<close>

text \<open>
  \<^verbatim>\<open>void this.execute(job, options)\<close>: the execution runs up to its first \<^verbatim>\<open>await\<close> and is
  left to the event loop; nobody awaits its promise, so a rejection is an unhandled one.
\<close>

definition launch :: "'a queue_job \<Rightarrow> job_options \<Rightarrow> 'a in_memory_queue \<Rightarrow> 'a in_memory_queue" where
  "launch job options q =
     (case execute_start job options q of
        (Suspended t, q') \<Rightarrow> q'\<lparr>inflight := inflight q' @ [t]\<rparr>
      | (Finished Fulfilled, q') \<Rightarrow> q'
      | (Finished (Rejected e), q') \<Rightarrow> q'\<lparr>trace := trace q' @ [Unhandled e]\<rparr>)"

definition add :: "'a \<Rightarrow> job_options \<Rightarrow> 'a in_memory_queue \<Rightarrow> 'a in_memory_queue" where
  "add d options q =
     (let job = \<lparr>job_id = nextId q, data = d\<rparr>;
          q1 = q\<lparr>nextId := nextId q + 1\<rparr>
      in case handler q1 of
           None \<Rightarrow>
             (let p = pending q1 @ [(job, options)]
              in q1\<lparr>pending := p, counts := (counts q1)\<lparr>waiting := int (length p)\<rparr>\<rparr>)
         | Some h \<Rightarrow>
             launch job options
               (q1\<lparr>counts := (counts q1)\<lparr>waiting := waiting (counts q1) + 1\<rparr>\<rparr>))"

definition process :: "'a handler \<Rightarrow> 'a in_memory_queue \<Rightarrow> 'a in_memory_queue" where
  "process h q =
     (let q1 = q\<lparr>handler := Some h\<rparr>
      in if length (pending q1) = 0 then q1
         else
           (let queued = pending q1;
                q2 = q1\<lparr>pending := [], counts := (counts q1)\<lparr>waiting := int (length queued)\<rparr>\<rparr>
            in foldl (\<lambda>s (job, options). launch job options s) q2 queued))"

text \<open>The event loop picks one parked execution and resumes it.\<close>

definition step :: "nat \<Rightarrow> 'a in_memory_queue \<Rightarrow> 'a in_memory_queue" where
  "step i q =
     (if i < length (inflight q) then
        (let t = inflight q ! i;
             rest = take i (inflight q) @ drop (Suc i) (inflight q)
         in case resume t (q\<lparr>inflight := rest\<rparr>) of
              (Suspended t', q') \<Rightarrow> q'\<lparr>inflight := inflight q' @ [t']\<rparr>
            | (Finished Fulfilled, q') \<Rightarrow> q'
            | (Finished (Rejected e), q') \<Rightarrow> q'\<lparr>trace := trace q' @ [Unhandled e]\<rparr>)
      else q)"

text \<open>What the trace says about handler calls and notifications.\<close>

definition handler_calls :: "'a trace_event list \<Rightarrow> ('a queue_job \<times> int) list" where
  "handler_calls tr = concat (map (\<lambda>e. case e of HandlerCalled j a \<Rightarrow> [(j, a)] | _ \<Rightarrow> []) tr)"

definition started :: "'a trace_event list \<Rightarrow> 'a queue_job list" where
  "started tr = map fst (filter (\<lambda>c. snd c = 1) (handler_calls tr))"

definition notified :: "'a trace_event list \<Rightarrow> (string \<times> 'a largs) list" where
  "notified tr = concat (map (\<lambda>e. case e of ListenerCalled l a \<Rightarrow> [(l, a)] | _ \<Rightarrow> []) tr)"

definition sleeps :: "'a trace_event list \<Rightarrow> int list" where
  "sleeps tr = concat (map (\<lambda>e. case e of Slept d \<Rightarrow> [d] | _ \<Rightarrow> []) tr)"

subsection \<open>A sample job, sample handlers and sample listeners\<close>

text \<open>Concrete inputs on which the properties below are evaluated.\<close>

definition demo_job :: "string queue_job" where
  "demo_job = \<lparr>job_id = 1, data = ''call''\<rparr>"

definition flaky_handler :: "string handler" where
  "flaky_handler job attempt = (if attempt < 3 then Rejects (ErrorObj ''boom'') else Resolves)"

definition failing_handler :: "string handler" where
  "failing_handler job attempt = Rejects (NonError ''boom'')"

definition ok_handler :: "string handler" where
  "ok_handler job attempt = Resolves"

definition quiet_listener :: "string \<Rightarrow> string listener" where
  "quiet_listener name = \<lparr>lname = name, lbody = (\<lambda>args. None)\<rparr>"

definition throwing_listener :: "string \<Rightarrow> string listener" where
  "throwing_listener name = \<lparr>lname = name, lbody = (\<lambda>args. Some (ErrorObj ''listener''))\<rparr>"

definition watched_queue :: "string listener \<Rightarrow> string listener \<Rightarrow> string listener \<Rightarrow> string handler \<Rightarrow> string in_memory_queue" where
  "watched_queue c f e h = process h (on Error e (on Failed f (on Completed c new_queue)))"


subsection \<open>Observations on an execution\<close>

text \<open>The value that a failed handler call threw or rejected with.\<close>

definition thrown_of :: "settle \<Rightarrow> thrown" where
  "thrown_of s = (case s of Throws e \<Rightarrow> e | Rejects e \<Rightarrow> e | Resolves \<Rightarrow> ErrorObj [])"

text \<open>
  The queue after the wait between two attempts, when there is one: the delay is in the
  trace and the delayed counter has gone up and down again.
\<close>

definition slept :: "job_options \<Rightarrow> int \<Rightarrow> 'a in_memory_queue \<Rightarrow> 'a in_memory_queue" where
  "slept options attempt q =
     (let delay = getBackoffDelay (backoff options) attempt
      in if delay > 0 then
           q\<lparr>trace := trace q @ [Slept delay],
             counts := (counts q)\<lparr>delayed := max 0 (delayed (counts q) + 1 - 1)\<rparr>\<rparr>
         else q)"

text \<open>The counters after a handler call that was found fulfilled.\<close>

definition succeeded :: "'a queue_job \<Rightarrow> 'a in_memory_queue \<Rightarrow> 'a in_memory_queue" where
  "succeeded job q = q\<lparr>counts := (counts q)\<lparr>active := max 0 (active (counts q) - 1),
                                           completed := completed (counts q) + 1\<rparr>\<rparr>"

text \<open>
  \<open>retried job options a b q q'\<close>: between \<open>q\<close> and \<open>q'\<close> the handler was called for the
  attempts \<open>a\<close> to \<open>b\<close> of the job and for nothing else, no listener was called, the waits
  were the positive delays after the attempts \<open>a\<close> to \<open>b - 1\<close>, and the handler, the listeners
  and the active, completed and failed counters are as before.
\<close>

definition retried :: "'a queue_job \<Rightarrow> job_options \<Rightarrow> int \<Rightarrow> int \<Rightarrow> 'a in_memory_queue \<Rightarrow> 'a in_memory_queue \<Rightarrow> bool" where
  "retried job options a b q q' \<longleftrightarrow>
     handler q' = handler q \<and> listeners q' = listeners q \<and>
     active (counts q') = active (counts q) \<and> completed (counts q') = completed (counts q) \<and>
     failed (counts q') = failed (counts q) \<and>
     handler_calls (trace q') = handler_calls (trace q) @ map (Pair job) [a..b] \<and>
     notified (trace q') = notified (trace q) \<and>
     sleeps (trace q') = sleeps (trace q) @
       filter (\<lambda>d. 0 < d) (map (getBackoffDelay (backoff options)) [a..b - 1])"

text \<open>
  \<open>completed_run job options a k q q'\<close>: between \<open>q\<close> and \<open>q'\<close> the handler was called for the
  attempts \<open>a\<close> to \<open>k\<close> of the job, then every completed listener once with the job, and the
  job has moved from active to completed.
\<close>

definition completed_run ::
  "'a queue_job \<Rightarrow> job_options \<Rightarrow> int \<Rightarrow> int \<Rightarrow> 'a in_memory_queue \<Rightarrow> 'a in_memory_queue \<Rightarrow> bool" where
  "completed_run job options a k q q' \<longleftrightarrow>
     handler q' = handler q \<and> listeners q' = listeners q \<and>
     active (counts q') = max 0 (active (counts q) - 1) \<and>
     completed (counts q') = completed (counts q) + 1 \<and>
     failed (counts q') = failed (counts q) \<and>
     handler_calls (trace q') = handler_calls (trace q) @ map (Pair job) [a..k] \<and>
     notified (trace q') = notified (trace q) @
       map (\<lambda>l. (lname l, CompletedArgs job)) (on_completed (listeners q)) \<and>
     sleeps (trace q') = sleeps (trace q) @
       filter (\<lambda>d. 0 < d) (map (getBackoffDelay (backoff options)) [a..k - 1])"

text \<open>
  What \<^verbatim>\<open>forEach\<close> does with a list of listeners, read off the list: the exception of the
  first listener that throws, and the listeners that are called (those before it, and it).
\<close>

definition first_throw :: "'a listener list \<Rightarrow> 'a largs \<Rightarrow> thrown option" where
  "first_throw ls args = (case List.find (\<lambda>l. lbody l args \<noteq> None) ls of None \<Rightarrow> None | Some l \<Rightarrow> lbody l args)"

definition called :: "'a listener list \<Rightarrow> 'a largs \<Rightarrow> (string \<times> 'a largs) list" where
  "called ls args =
     map (\<lambda>l. (lname l, args))
       (takeWhile (\<lambda>l. lbody l args = None) ls @ take 1 (dropWhile (\<lambda>l. lbody l args = None) ls))"

text \<open>What no execution touches: the handler, the buffer, the parked executions, the next id.\<close>

definition same_buffer :: "'a in_memory_queue \<Rightarrow> 'a in_memory_queue \<Rightarrow> bool" where
  "same_buffer q q' \<longleftrightarrow>
     handler q' = handler q \<and> pending q' = pending q \<and> inflight q' = inflight q \<and>
     nextId q' = nextId q"

text \<open>
  A sequence of \<^verbatim>\<open>add\<close> calls, and the jobs that such a sequence creates when the ids start
  at \<open>i\<close>.
\<close>

fun add_all :: "('a \<times> job_options) list \<Rightarrow> 'a in_memory_queue \<Rightarrow> 'a in_memory_queue" where
  "add_all [] q = q"
| "add_all ((d, options) # ds) q = add_all ds (add d options q)"

fun numbered :: "nat \<Rightarrow> ('a \<times> job_options) list \<Rightarrow> ('a queue_job \<times> job_options) list" where
  "numbered i [] = []"
| "numbered i ((d, options) # ds) = (\<lparr>job_id = i, data = d\<rparr>, options) # numbered (Suc i) ds"


section \<open>Webhook events (types.ts) and the queue service\<close>

text \<open>
  The route handlers read the payload object \<^verbatim>\<open>as any\<close>. The model gives it the fields the
  code reads, each of them optional: \<open>None\<close> is a field that is absent (\<^verbatim>\<open>undefined\<close>). An
  entry of \<^verbatim>\<open>call_logs\<close> or of \<^verbatim>\<open>recordings\<close> is a \<open>call_entry\<close>. Field names carry a prefix
  (\<open>e_\<close>, \<open>c_\<close>, \<open>o_\<close>) to keep them apart.
\<close>

record call_entry =
  e_id :: "string option"
  e_call_id :: "string option"
  e_result :: "string option"
  e_duration :: "int option"
  e_has_recording :: "bool option"
  e_caller_name :: "string option"
  e_caller_number :: "string option"
  e_date_time :: "string option"
  e_download_url :: "string option"
  e_transcript_download_url :: "string option"

record caller_info =
  c_name :: "string option"
  c_phone_number :: "string option"

record payload_object =
  o_id :: "string option"
  o_call_id :: "string option"
  o_handup_result :: "string option"
  o_result :: "string option"
  o_caller :: "caller_info option"
  o_caller_name :: "string option"
  o_caller_number :: "string option"
  o_date_time :: "string option"
  o_ringing_start_time :: "string option"
  o_duration :: "int option"
  o_download_url :: "string option"
  o_transcript :: "string option"
  o_transcription :: "string option option"
  o_call_logs :: "call_entry list option"
  o_recordings :: "call_entry list option"

record zoom_webhook_event =
  event :: string
  event_ts :: int
  account_id :: string
  object :: payload_object

datatype job_type = missed_call | voicemail | sales_call

record QueueJob =
  qj_type :: job_type
  qj_event :: zoom_webhook_event

text \<open>
  \<^verbatim>\<open>QueueService\<close> with the in-memory backend (no \<^verbatim>\<open>REDIS_URL\<close>, or one that points to the
  local host). The Redis backend hands every call to the bull library and is not modelled.
\<close>

record queue_service =
  missedCallQueue :: "QueueJob in_memory_queue"
  voicemailQueue :: "QueueJob in_memory_queue"
  salesCallQueue :: "QueueJob in_memory_queue"

definition new_queue_service :: queue_service where
  "new_queue_service =
     \<lparr>missedCallQueue = new_queue, voicemailQueue = new_queue, salesCallQueue = new_queue\<rparr>"

text \<open>\<^verbatim>\<open>{ attempts: 3, backoff: { type: 'exponential', delay: 2000 } }\<close>\<close>

definition service_options :: job_options where
  "service_options =
     \<lparr>attempts = Some 3, backoff = Some (BackoffOptions ''exponential'' (Some 2000))\<rparr>"

definition addMissedCall :: "QueueJob \<Rightarrow> queue_service \<Rightarrow> queue_service" where
  "addMissedCall job svc = svc\<lparr>missedCallQueue := add job service_options (missedCallQueue svc)\<rparr>"

definition addVoicemail :: "QueueJob \<Rightarrow> queue_service \<Rightarrow> queue_service" where
  "addVoicemail job svc = svc\<lparr>voicemailQueue := add job service_options (voicemailQueue svc)\<rparr>"

definition addSalesCall :: "QueueJob \<Rightarrow> queue_service \<Rightarrow> queue_service" where
  "addSalesCall job svc = svc\<lparr>salesCallQueue := add job service_options (salesCallQueue svc)\<rparr>"

section \<open>The webhook route (routes.ts, POST /webhook/zoom)\<close>

text \<open>A string value is truthy when it is present and not empty.\<close>

definition truthy :: "string option \<Rightarrow> bool" where
  "truthy s = (case s of None \<Rightarrow> False | Some v \<Rightarrow> v \<noteq> [])"

text \<open>\<^verbatim>\<open>a || b\<close> on optional strings, and \<^verbatim>\<open>a || 'literal'\<close>.\<close>

definition or_else :: "string option \<Rightarrow> string option \<Rightarrow> string option" where
  "or_else a b = (if truthy a then a else b)"

definition or_default :: "string option \<Rightarrow> string \<Rightarrow> string" where
  "or_default a d = (case a of None \<Rightarrow> d | Some v \<Rightarrow> if v = [] then d else v)"

text \<open>
  \<^verbatim>\<open>String.prototype.toLowerCase\<close> on the ASCII letters; every other character is left as it
  is. \<^verbatim>\<open>String.prototype.includes\<close> is the search for a contiguous substring.
\<close>

definition toLowerCase :: "string \<Rightarrow> string" where
  "toLowerCase s =
     map (\<lambda>c. let n = (of_char c :: nat) in if 65 \<le> n \<and> n \<le> 90 then char_of (n + 32) else c) s"

fun str_includes :: "string \<Rightarrow> string \<Rightarrow> bool" where
  "str_includes [] t = (t = [])"
| "str_includes (c # r) t = (prefix t (c # r) \<or> str_includes r t)"

definition type_error :: "string \<Rightarrow> thrown" where
  "type_error what = ErrorObj (''TypeError: Cannot read properties of undefined (reading '' @ what @ '')'')"

text \<open>
  The \<^verbatim>\<open>switch (event.event)\<close> statement. JavaScript compares the value with the case labels
  from top to bottom and enters the first clause whose label is equal; the chain of tests
  below keeps the order of the clauses. The result is the exception that left the statement,
  if any, and the queues. The \<^verbatim>\<open>console.log\<close> calls are left out, but not the property reads
  in their arguments that throw on \<^verbatim>\<open>undefined\<close>.
\<close>

definition dispatch :: "zoom_webhook_event \<Rightarrow> queue_service \<Rightarrow> thrown option \<times> queue_service" where
  "dispatch ev svc =
     (let tag = event ev; callObj = object ev in
      if tag = ''phone.callee_ended'' \<or> tag = ''phone.caller_ended'' then
        (let hangupResult = or_default (or_else (o_handup_result callObj) (o_result callObj)) ''''
         in if hangupResult = ''Call Canceled'' \<or> hangupResult = ''Voicemail'' \<or>
               hangupResult = ''No Answer'' \<or> str_includes (toLowerCase hangupResult) ''missed''
            then (None, addMissedCall \<lparr>qj_type = missed_call, qj_event = ev\<rparr> svc)
            else (None, svc))
      else if tag = ''phone.callee_missed'' then
        (None, addMissedCall \<lparr>qj_type = missed_call, qj_event = ev\<rparr> svc)
      else if tag = ''phone.voicemail_received'' then
        (None, addVoicemail \<lparr>qj_type = voicemail, qj_event = ev\<rparr> svc)
      else if tag = ''phone.callee_call_log_completed'' then
        (case o_call_logs callObj of
           None \<Rightarrow> (Some (type_error ''0''), svc)
         | Some [] \<Rightarrow> (Some (type_error ''call_id''), svc)
         | Some (log # _) \<Rightarrow> (None, svc))
      else if tag = ''phone.callee_ringing'' then (None, svc)
      else if tag = ''phone.callee_answered'' then (None, svc)
      else if tag = ''phone.recording_started'' then (None, svc)
      else if tag = ''phone.recording_completed'' then
        (case o_recordings callObj of
           None \<Rightarrow> (Some (type_error ''0''), svc)
         | Some _ \<Rightarrow> (None, addSalesCall \<lparr>qj_type = sales_call, qj_event = ev\<rparr> svc))
      else if tag = ''phone.recording_transcript_completed'' then
        (case o_recordings callObj of
           None \<Rightarrow> (Some (type_error ''0''), svc)
         | Some _ \<Rightarrow> (None, addSalesCall \<lparr>qj_type = sales_call, qj_event = ev\<rparr> svc))
      else if tag = ''phone.ai_call_summary_changed'' then
        (None, addSalesCall \<lparr>qj_type = sales_call, qj_event = ev\<rparr> svc)
      else if tag = ''phone.callee_call_log_completed'' then
        (case o_call_logs callObj of
           None \<Rightarrow> (Some (type_error ''0''), svc)
         | Some [] \<Rightarrow> (Some (type_error ''call_id''), svc)
         | Some (log # _) \<Rightarrow>
             if e_result log \<noteq> Some ''Missed'' \<and> e_result log \<noteq> Some ''Voicemail''
             then (None, addSalesCall \<lparr>qj_type = sales_call, qj_event = ev\<rparr> svc)
             else (None, svc))
      else if tag = ''phone.voicemail_transcript_completed'' then
        (None, addVoicemail \<lparr>qj_type = voicemail, qj_event = ev\<rparr> svc)
      else if tag = ''phone.callee_missed_call'' then
        (None, addMissedCall \<lparr>qj_type = missed_call, qj_event = ev\<rparr> svc)
      else (None, svc))"

text \<open>
  The route. \<open>valid\<close> stands for \<^verbatim>\<open>validateZoomWebhook\<close> with the configured secret token (an
  HMAC-SHA256 comparison, computed by the crypto library).
\<close>

record webhook_request =
  x_zm_request_timestamp :: "string option"
  x_zm_signature :: "string option"
  body :: zoom_webhook_event

datatype http_response = Response nat string

definition post_webhook_zoom ::
  "(zoom_webhook_event \<Rightarrow> string \<Rightarrow> string \<Rightarrow> bool) \<Rightarrow> webhook_request \<Rightarrow> queue_service \<Rightarrow>
     http_response \<times> queue_service" where
  "post_webhook_zoom valid req svc =
     (if \<not> truthy (x_zm_request_timestamp req) \<or> \<not> truthy (x_zm_signature req) then
        (Response 400 ''Missing required headers'', svc)
      else if \<not> valid (body req) (the (x_zm_request_timestamp req)) (the (x_zm_signature req)) then
        (Response 401 ''Invalid signature'', svc)
      else
        (case dispatch (body req) svc of
           (Some e, svc') \<Rightarrow> (Response 500 ''Internal server error'', svc')
         | (None, svc') \<Rightarrow> (Response 200 ''Webhook received'', svc')))"

definition empty_object :: payload_object where
  "empty_object =
     \<lparr>o_id = None, o_call_id = None, o_handup_result = None, o_result = None, o_caller = None,
      o_caller_name = None, o_caller_number = None, o_date_time = None,
      o_ringing_start_time = None, o_duration = None, o_download_url = None,
      o_transcript = None, o_transcription = None, o_call_logs = None, o_recordings = None\<rparr>"

definition empty_entry :: call_entry where
  "empty_entry =
     \<lparr>e_id = None, e_call_id = None, e_result = None, e_duration = None, e_has_recording = None,
      e_caller_name = None, e_caller_number = None, e_date_time = None, e_download_url = None,
      e_transcript_download_url = None\<rparr>"

text \<open>The first event that scripts/verify-sales-call.ts sends: a recorded, answered call.\<close>

definition recorded_call_log :: zoom_webhook_event where
  "recorded_call_log =
     \<lparr>event = ''phone.callee_call_log_completed'', event_ts = 0, account_id = ''test_account'',
      object = empty_object\<lparr>o_call_logs := Some [empty_entry\<lparr>
        e_id := Some ''LOG-TEST-CALL-1'', e_call_id := Some ''TEST-CALL-1'',
        e_caller_name := Some ''Test Customer'', e_caller_number := Some ''+15559998888'',
        e_duration := Some 120, e_result := Some ''Recorded'', e_has_recording := Some True\<rparr>]\<rparr>\<rparr>"

definition ended_without_result :: zoom_webhook_event where
  "ended_without_result =
     \<lparr>event = ''phone.callee_ended'', event_ts = 0, account_id = ''acct'',
      object = empty_object\<lparr>o_call_id := Some ''call-7''\<rparr>\<rparr>"

section \<open>The record store behind GraphService\<close>

text \<open>
  GraphService talks to Microsoft Graph through a client library. The model keeps what the
  service can observe of it: two SharePoint lists, the Planner tasks with their details, the
  Teams webhook, and the fact that any request may fail. The world keeps the requests in the
  order in which they were sent; \<open>faults w n\<close> is the error with which request number \<open>n\<close>
  (counted from 0) fails, if it does. A failed request changes nothing in the store.
\<close>

datatype fval = FStr string | FNum int | FOwner "int list"

record sp_list_item =
  item_id :: string
  item_fields :: "string \<rightharpoonup> fval"

record planner_task =
  pt_id :: string
  pt_planId :: string
  pt_title :: string
  pt_dueDateTime :: "int option"
  pt_description :: "string option"
  pt_etag :: nat

datatype console_line = ConsoleError string | ConsoleWarn string

datatype sp_list = SalesLeads | SalesCalls

datatype request =
    GetItems sp_list string
  | PatchItem sp_list string "(string \<times> fval) list"
  | PostItem sp_list "(string \<times> fval) list"
  | PostTask string string "int option"
  | GetTaskDetails string
  | PatchTaskDetails string nat string
  | PostTeams string

record graph_world =
  sent :: "request list"
  faults :: "nat \<Rightarrow> thrown option"
  salesLeadsList :: "sp_list_item list"
  salesCallsList :: "sp_list_item list"
  plannerTasks :: "planner_task list"
  issued :: nat
  waits :: "nat list"
  teams_posts :: "string list"
  console :: "console_line list"

definition list_items :: "sp_list \<Rightarrow> graph_world \<Rightarrow> sp_list_item list" where
  "list_items l w = (case l of SalesLeads \<Rightarrow> salesLeadsList w | SalesCalls \<Rightarrow> salesCallsList w)"

definition set_list_items :: "sp_list \<Rightarrow> sp_list_item list \<Rightarrow> graph_world \<Rightarrow> graph_world" where
  "set_list_items l its w =
     (case l of SalesLeads \<Rightarrow> w\<lparr>salesLeadsList := its\<rparr> | SalesCalls \<Rightarrow> w\<lparr>salesCallsList := its\<rparr>)"

text \<open>The store hands out ids that are never empty and never repeated.\<close>

definition fresh_id :: "nat \<Rightarrow> string" where
  "fresh_id n = CHR ''i'' # replicate n (CHR ''x'')"

definition send :: "request \<Rightarrow> graph_world \<Rightarrow> thrown option \<times> graph_world" where
  "send r w = (faults w (length (sent w)), w\<lparr>sent := sent w @ [r]\<rparr>)"

text \<open>\<^verbatim>\<open>error.message\<close>\<close>

definition message :: "thrown \<Rightarrow> string" where
  "message e = (case e of ErrorObj m \<Rightarrow> m | NonError s \<Rightarrow> ''undefined'')"

definition log_error :: "string \<Rightarrow> graph_world \<Rightarrow> graph_world" where
  "log_error line w = w\<lparr>console := console w @ [ConsoleError line]\<rparr>"

definition log_warn :: "string \<Rightarrow> graph_world \<Rightarrow> graph_world" where
  "log_warn line w = w\<lparr>console := console w @ [ConsoleWarn line]\<rparr>"

text \<open>
  The query \<^verbatim>\<open>.filter(`fields/CallId eq '${item.callId}'`)\<close> copies the call id between two
  quote characters. In the filter language a quote inside a string literal is written twice;
  \<open>odata_literal\<close> is the string that the store reads between the quotes, if the text is a
  literal at all. The store answers with the items whose CallId is that string, in list
  order; a text that is no literal is refused.
\<close>

fun odata_literal :: "string \<Rightarrow> string option" where
  "odata_literal [] = Some []"
| "odata_literal [c] = (if c = CHR 0x27 then None else Some [c])"
| "odata_literal (c # d # r) =
     (if c = CHR 0x27 then
        (if d = CHR 0x27 then map_option ((#) c) (odata_literal r) else None)
      else map_option ((#) c) (odata_literal (d # r)))"

definition has_call_id :: "string \<Rightarrow> sp_list_item \<Rightarrow> bool" where
  "has_call_id c it = (item_fields it ''CallId'' = Some (FStr c))"

definition get_items_by_call_id ::
  "sp_list \<Rightarrow> string \<Rightarrow> graph_world \<Rightarrow> (thrown + sp_list_item list) \<times> graph_world" where
  "get_items_by_call_id l c w =
     (case send (GetItems l c) w of
        (Some e, w') \<Rightarrow> (Inl e, w')
      | (None, w') \<Rightarrow>
          (case odata_literal c of
             None \<Rightarrow> (Inl (ErrorObj ''Invalid filter clause''), w')
           | Some v \<Rightarrow> (Inr (filter (has_call_id v) (list_items l w')), w')))"

definition patch_item_fields ::
  "sp_list \<Rightarrow> string \<Rightarrow> (string \<times> fval) list \<Rightarrow> graph_world \<Rightarrow> thrown option \<times> graph_world" where
  "patch_item_fields l i updates w =
     (case send (PatchItem l i updates) w of
        (Some e, w') \<Rightarrow> (Some e, w')
      | (None, w') \<Rightarrow>
          if i \<in> set (map item_id (list_items l w')) then
            (None, set_list_items l
               (map (\<lambda>it. if item_id it = i then it\<lparr>item_fields := item_fields it ++ map_of updates\<rparr> else it)
                  (list_items l w')) w')
          else (Some (ErrorObj ''itemNotFound''), w'))"

definition post_item ::
  "sp_list \<Rightarrow> (string \<times> fval) list \<Rightarrow> graph_world \<Rightarrow> (thrown + string) \<times> graph_world" where
  "post_item l flds w =
     (case send (PostItem l flds) w of
        (Some e, w') \<Rightarrow> (Inl e, w')
      | (None, w') \<Rightarrow>
          (let i = fresh_id (issued w')
           in (Inr i,
               (set_list_items l (list_items l w' @ [\<lparr>item_id = i, item_fields = map_of flds\<rparr>]) w')
                 \<lparr>issued := Suc (issued w')\<rparr>)))"

definition post_task ::
  "string \<Rightarrow> string \<Rightarrow> int option \<Rightarrow> graph_world \<Rightarrow> (thrown + string) \<times> graph_world" where
  "post_task plan title due w =
     (case send (PostTask plan title due) w of
        (Some e, w') \<Rightarrow> (Inl e, w')
      | (None, w') \<Rightarrow>
          (let i = fresh_id (issued w')
           in (Inr i,
               w'\<lparr>plannerTasks := plannerTasks w' @
                     [\<lparr>pt_id = i, pt_planId = plan, pt_title = title, pt_dueDateTime = due,
                       pt_description = None, pt_etag = 0\<rparr>],
                  issued := Suc (issued w')\<rparr>)))"

text \<open>The details of a task: its description and the version tag (\<^verbatim>\<open>@odata.etag\<close>).\<close>

definition get_task_details ::
  "string \<Rightarrow> graph_world \<Rightarrow> (thrown + string option \<times> nat) \<times> graph_world" where
  "get_task_details i w =
     (case send (GetTaskDetails i) w of
        (Some e, w') \<Rightarrow> (Inl e, w')
      | (None, w') \<Rightarrow>
          (case find (\<lambda>t. pt_id t = i) (plannerTasks w') of
             None \<Rightarrow> (Inl (ErrorObj ''taskNotFound''), w')
           | Some t \<Rightarrow> (Inr (pt_description t, pt_etag t), w')))"

text \<open>The patch with \<^verbatim>\<open>If-Match\<close>: it is applied only to the version that was read.\<close>

definition patch_task_details ::
  "string \<Rightarrow> nat \<Rightarrow> string \<Rightarrow> graph_world \<Rightarrow> thrown option \<times> graph_world" where
  "patch_task_details i etag description w =
     (case send (PatchTaskDetails i etag description) w of
        (Some e, w') \<Rightarrow> (Some e, w')
      | (None, w') \<Rightarrow>
          (case find (\<lambda>t. pt_id t = i) (plannerTasks w') of
             None \<Rightarrow> (Some (ErrorObj ''taskNotFound''), w')
           | Some t \<Rightarrow>
               if pt_etag t = etag then
                 (None, w'\<lparr>plannerTasks :=
                    map (\<lambda>t. if pt_id t = i
                              then t\<lparr>pt_description := Some description, pt_etag := Suc (pt_etag t)\<rparr>
                              else t) (plannerTasks w')\<rparr>)
               else (Some (ErrorObj ''Precondition Failed''), w')))"

definition post_teams_webhook :: "string \<Rightarrow> graph_world \<Rightarrow> thrown option \<times> graph_world" where
  "post_teams_webhook text w =
     (case send (PostTeams text) w of
        (Some e, w') \<Rightarrow> (Some e, w')
      | (None, w') \<Rightarrow> (None, w'\<lparr>teams_posts := teams_posts w' @ [text]\<rparr>))"

text \<open>\<^verbatim>\<open>await new Promise(resolve => setTimeout(resolve, ms))\<close>\<close>

definition sleep :: "nat \<Rightarrow> graph_world \<Rightarrow> graph_world" where
  "sleep ms w = w\<lparr>waits := waits w @ [ms]\<rparr>"

definition new_world :: "(nat \<Rightarrow> thrown option) \<Rightarrow> graph_world" where
  "new_world f =
     \<lparr>sent = [], faults = f, salesLeadsList = [], salesCallsList = [], plannerTasks = [],
      issued = 0, waits = [], teams_posts = [], console = []\<rparr>"

section \<open>GraphService (services/graphService.ts)\<close>

text \<open>
  \<^verbatim>\<open>SalesLeadItem\<close> and \<^verbatim>\<open>SalesCallItem\<close> of types.ts, with the prefixes \<open>sl_\<close> and \<open>sc_\<close>. The
  call id is declared a string, but the processors fill it from the payload, where it may be
  absent.
\<close>

record SalesLeadItem =
  sl_channel :: string
  sl_summary :: string
  sl_priority :: string
  sl_owner :: "int list option"
  sl_status :: string
  sl_callTimestamp :: string
  sl_voicemailLink :: "string option"
  sl_transcript :: "string option"
  sl_callId :: "string option"
  sl_plannerTaskId :: "string option"

record SalesCallItem =
  sc_contact :: string
  sc_summary :: string
  sc_priority :: string
  sc_owner :: "int list option"
  sc_status :: string
  sc_callTimestamp :: string
  sc_recordingLink :: "string option"
  sc_transcript :: "string option"
  sc_aiSummary :: "string option"
  sc_callId :: "string option"
  sc_duration :: int

record config =
  plannerPlanId :: string
  teamsWebhookUrl :: "string option"

text \<open>An object literal: the properties whose value is \<^verbatim>\<open>undefined\<close> are not sent.\<close>

definition present :: "string \<Rightarrow> string option \<Rightarrow> (string \<times> fval) list" where
  "present k v = (case v of None \<Rightarrow> [] | Some s \<Rightarrow> [(k, FStr s)])"

definition when_truthy :: "string \<Rightarrow> string option \<Rightarrow> (string \<times> fval) list" where
  "when_truthy k v = (if truthy v then [(k, FStr (the v))] else [])"

definition owner_field :: "int list option \<Rightarrow> (string \<times> fval) list" where
  "owner_field ow = (case ow of None \<Rightarrow> [] | Some os \<Rightarrow> if os = [] then [] else [(''Owner'', FOwner os)])"

definition str_field :: "fval option \<Rightarrow> string option" where
  "str_field v = (case v of Some (FStr s) \<Rightarrow> Some s | _ \<Rightarrow> None)"

definition lead_fields :: "SalesLeadItem \<Rightarrow> (string \<times> fval) list" where
  "lead_fields item =
     [(''Title'', FStr (sl_summary item)), (''Channel'', FStr (sl_channel item)),
      (''Priority'', FStr (sl_priority item)), (''Status'', FStr (sl_status item)),
      (''CallTimestamp'', FStr (sl_callTimestamp item))] @
     present ''CallId'' (sl_callId item) @
     [(''VoicemailTranscript'', FStr (or_default (sl_transcript item) ''''))] @
     owner_field (sl_owner item)"

definition createSalesLeadItem ::
  "SalesLeadItem \<Rightarrow> graph_world \<Rightarrow> (thrown + string \<times> string option) \<times> graph_world" where
  "createSalesLeadItem item w =
     (let rethrow = (\<lambda>e w'. (Inl e, log_error (''Error creating sales lead item: '' @ message e) w'));
          create = (\<lambda>w'. case post_item SalesLeads (lead_fields item) w' of
                       (Inl e, w'') \<Rightarrow> rethrow e w''
                     | (Inr i, w'') \<Rightarrow> (Inr (i, None), w''))
      in if truthy (sl_callId item) then
           (case get_items_by_call_id SalesLeads (the (sl_callId item)) w of
              (Inl e, w1) \<Rightarrow> rethrow e w1
            | (Inr [], w1) \<Rightarrow> create w1
            | (Inr (found # _), w1) \<Rightarrow>
                (let foundId = item_id found;
                     foundPlannerTaskId = str_field (item_fields found ''PlannerTaskId'')
                 in if truthy (sl_transcript item) then
                      (case patch_item_fields SalesLeads foundId
                              [(''VoicemailTranscript'', FStr (the (sl_transcript item)))] w1 of
                         (Some e, w2) \<Rightarrow> rethrow e w2
                       | (None, w2) \<Rightarrow> (Inr (foundId, foundPlannerTaskId), w2))
                    else (Inr (foundId, foundPlannerTaskId), w1)))
         else create w)"

definition call_updates :: "SalesCallItem \<Rightarrow> (string \<times> fval) list" where
  "call_updates item =
     when_truthy ''RecordingUrl'' (sc_recordingLink item) @
     when_truthy ''TranscriptUrl'' (sc_transcript item) @
     when_truthy ''AiSummary'' (sc_aiSummary item) @
     when_truthy ''Status'' (Some (sc_status item))"

definition call_fields :: "SalesCallItem \<Rightarrow> (string \<times> fval) list" where
  "call_fields item =
     [(''Title'', FStr (sc_summary item)), (''Contact'', FStr (sc_contact item)),
      (''Priority'', FStr (sc_priority item)), (''Status'', FStr (sc_status item)),
      (''CallTimestamp'', FStr (sc_callTimestamp item))] @
     present ''CallId'' (sc_callId item) @
     [(''Duration'', FNum (sc_duration item)),
      (''RecordingUrl'', FStr (or_default (sc_recordingLink item) '''')),
      (''TranscriptUrl'', FStr (or_default (sc_transcript item) '''')),
      (''AiSummary'', FStr (or_default (sc_aiSummary item) ''''))] @
     owner_field (sc_owner item)"

definition createSalesCallItem ::
  "SalesCallItem \<Rightarrow> graph_world \<Rightarrow> (thrown + string) \<times> graph_world" where
  "createSalesCallItem item w =
     (let rethrow = (\<lambda>e w'. (Inl e, log_error (''Error creating sales call item: '' @ message e) w'));
          create = (\<lambda>w'. case post_item SalesCalls (call_fields item) w' of
                       (Inl e, w'') \<Rightarrow> rethrow e w''
                     | (Inr i, w'') \<Rightarrow> (Inr i, w''))
      in if truthy (sc_callId item) then
           (case get_items_by_call_id SalesCalls (the (sc_callId item)) w of
              (Inl e, w1) \<Rightarrow> rethrow e w1
            | (Inr [], w1) \<Rightarrow> create w1
            | (Inr (found # _), w1) \<Rightarrow>
                (let foundId = item_id found;
                     updates = call_updates item
                 in if updates \<noteq> [] then
                      (case patch_item_fields SalesCalls foundId updates w1 of
                         (Some e, w2) \<Rightarrow> rethrow e w2
                       | (None, w2) \<Rightarrow> (Inr foundId, w2))
                    else (Inr foundId, w1)))
         else create w)"

text \<open>
  Characters that the messages of the source contain and that are written here by their
  codes: the line feed, the double quote, and the UTF-8 bytes of the signs U+2717, U+26A0,
  U+1F514 and U+1F4DE.
\<close>

definition nl :: string where
  "nl = [CHR 0x0A]"

definition dquote :: string where
  "dquote = [CHR 0x22]"

definition cross_sign :: string where
  "cross_sign = [CHR 0xE2, CHR 0x9C, CHR 0x97]"

definition warning_sign :: string where
  "warning_sign = [CHR 0xE2, CHR 0x9A, CHR 0xA0]"

definition bell_sign :: string where
  "bell_sign = [CHR 0xF0, CHR 0x9F, CHR 0x94, CHR 0x94]"

definition phone_sign :: string where
  "phone_sign = [CHR 0xF0, CHR 0x9F, CHR 0x93, CHR 0x9E]"

text \<open>
  One pass of the body of the retry loop of \<^verbatim>\<open>createPlannerTask\<close>: read the details, build the
  description, patch with the version tag that was read.
\<close>

definition patch_attempt ::
  "string \<Rightarrow> string \<Rightarrow> string option \<Rightarrow> graph_world \<Rightarrow> thrown option \<times> graph_world" where
  "patch_attempt taskId details existingTaskId w =
     (case get_task_details taskId w of
        (Inl e, w1) \<Rightarrow> (Some e, w1)
      | (Inr (description, etag), w1) \<Rightarrow>
          (let newDescription =
                 (if truthy existingTaskId \<and> truthy description
                  then the description @ nl @ nl @ ''-------------------'' @ nl @ nl @ details
                  else details)
           in patch_task_details taskId etag newDescription w1))"

definition digit :: "nat \<Rightarrow> string" where
  "digit n = [char_of (48 + n)]"

text \<open>
  \<^verbatim>\<open>while (retries > 0) { try { ...; break } catch (err) { ...; retries--; if (retries === 0)
  throw err; await sleep(1500) } }\<close>, entered with the given value of \<^verbatim>\<open>retries\<close>.
\<close>

fun patch_with_retry ::
  "nat \<Rightarrow> string \<Rightarrow> string \<Rightarrow> string option \<Rightarrow> graph_world \<Rightarrow> thrown option \<times> graph_world" where
  "patch_with_retry 0 taskId details existingTaskId w = (None, w)"
| "patch_with_retry (Suc r) taskId details existingTaskId w =
     (case patch_attempt taskId details existingTaskId w of
        (None, w1) \<Rightarrow> (None, w1)
      | (Some err, w1) \<Rightarrow>
          (let w2 = log_warn (''! Planner update failed (attempt '' @ digit (4 - Suc r) @ ''): '' @
                              message err) w1
           in if r = 0 then (Some err, w2)
              else patch_with_retry r taskId details existingTaskId (sleep 1500 w2)))"

definition createPlannerTask ::
  "config \<Rightarrow> string \<Rightarrow> string \<Rightarrow> int option \<Rightarrow> string option \<Rightarrow> graph_world \<Rightarrow>
     (thrown + string) \<times> graph_world" where
  "createPlannerTask cfg title details dueDate existingTaskId w =
     (let rethrow = (\<lambda>e w'. (Inl e, log_error (''Error creating planner task: '' @ message e) w'));
          update = (\<lambda>taskId w'.
             if details \<noteq> [] \<and> taskId \<noteq> [] then
               (case patch_with_retry 3 taskId details existingTaskId w' of
                  (Some e, w'') \<Rightarrow> rethrow e w''
                | (None, w'') \<Rightarrow> (Inr taskId, w''))
             else (Inr taskId, w'))
      in if \<not> truthy existingTaskId then
           (case post_task (plannerPlanId cfg) title dueDate w of
              (Inl e, w1) \<Rightarrow> rethrow e w1
            | (Inr taskId, w1) \<Rightarrow> update taskId w1)
         else update (the existingTaskId) w)"

text \<open>The link-back: the catch block logs and does not throw.\<close>

definition updateSalesLeadPlannerTaskId ::
  "string \<Rightarrow> string \<Rightarrow> graph_world \<Rightarrow> thrown option \<times> graph_world" where
  "updateSalesLeadPlannerTaskId itemId plannerTaskId w =
     (case patch_item_fields SalesLeads itemId [(''PlannerTaskId'', FStr plannerTaskId)] w of
        (Some e, w1) \<Rightarrow>
          (None, log_error (''Error linking Planner Task to Sales Lead: '' @ message e) w1)
      | (None, w1) \<Rightarrow> (None, w1))"

text \<open>
  JavaScript built-ins that the processors call: the clock, \<^verbatim>\<open>Date\<close> parsing (\<open>None\<close> is an
  invalid date) and formatting, the text of a number, and the three regular-expression
  replacements with which \<^verbatim>\<open>postToTeamsChannel\<close> turns its HTML message into plain text.
\<close>

record js_env =
  now :: int
  parse_date :: "string \<Rightarrow> int option"
  toISOString :: "int \<Rightarrow> string"
  toLocaleString :: "int \<Rightarrow> string"
  number_text :: "int \<Rightarrow> string"
  strip_html :: "string \<Rightarrow> string"

definition postToTeamsChannel ::
  "js_env \<Rightarrow> config \<Rightarrow> string \<Rightarrow> graph_world \<Rightarrow> thrown option \<times> graph_world" where
  "postToTeamsChannel env cfg msg w =
     (if \<not> truthy (teamsWebhookUrl cfg) then
        (None, log_warn (warning_sign @ '' No TEAMS_WEBHOOK_URL configured. Skipping Teams notification.'') w)
      else
        (case post_teams_webhook (strip_html env msg) w of
           (Some e, w1) \<Rightarrow> (None, log_error (''Error posting to Teams Webhook: '' @ message e) w1)
         | (None, w1) \<Rightarrow> (None, w1)))"

section \<open>QueueProcessor (services/queueProcessor.ts)\<close>

definition text_of :: "string option \<Rightarrow> string" where
  "text_of v = (case v of None \<Rightarrow> ''undefined'' | Some s \<Rightarrow> s)"

text \<open>\<^verbatim>\<open>new Date(callTime)\<close> followed by \<^verbatim>\<open>.toISOString()\<close>, which throws on an invalid date.\<close>

definition date_of :: "js_env \<Rightarrow> string \<Rightarrow> thrown + int" where
  "date_of env s = (case parse_date env s of None \<Rightarrow> Inl (ErrorObj ''Invalid time value'') | Some t \<Rightarrow> Inr t)"

text \<open>
  The steps that both processors share after the lead item has been prepared: the upsert of
  the lead, the follow-up task, the link-back when a new task was created, and the Teams
  message (sent when \<open>notify\<close> holds). An exception of \<^verbatim>\<open>postToTeamsChannel\<close> would be caught and
  ignored by the caller.
\<close>

definition lead_with_task ::
  "js_env \<Rightarrow> config \<Rightarrow> SalesLeadItem \<Rightarrow> string \<Rightarrow> string \<Rightarrow> bool \<Rightarrow> string \<Rightarrow> graph_world \<Rightarrow>
     thrown option \<times> graph_world" where
  "lead_with_task env cfg leadItem taskTitle taskDetails notify teamsMessage w =
     (case createSalesLeadItem leadItem w of
        (Inl e, w1) \<Rightarrow> (Some e, w1)
      | (Inr (listItemId, existingPlannerTaskId), w1) \<Rightarrow>
          (case createPlannerTask cfg taskTitle taskDetails (Some (now env + 86400000))
                  existingPlannerTaskId w1 of
             (Inl e, w2) \<Rightarrow> (Some e, w2)
           | (Inr taskId, w2) \<Rightarrow>
               (let w3 = (if \<not> truthy existingPlannerTaskId \<and> taskId \<noteq> []
                          then snd (updateSalesLeadPlannerTaskId listItemId taskId w2) else w2)
                in if notify then
                     (case postToTeamsChannel env cfg teamsMessage w3 of
                        (Some e, w4) \<Rightarrow>
                          (None, log_error (warning_sign @ '' Failed to post to Teams (ignoring error): '' @ message e) w4)
                      | (None, w4) \<Rightarrow> (None, w4))
                   else (None, w3))))"

definition processMissedCall ::
  "js_env \<Rightarrow> config \<Rightarrow> QueueJob queue_job \<Rightarrow> graph_world \<Rightarrow> thrown option \<times> graph_world" where
  "processMissedCall env cfg job w =
     (let rethrow = (\<lambda>e w'. (Some e, log_error (cross_sign @ '' Error processing missed call: '' @ message e) w'));
          callObj = object (qj_event (data job))
      in case o_caller callObj of
           None \<Rightarrow> rethrow (type_error ''name'') w
         | Some caller \<Rightarrow>
             (let callerName = or_default (or_else (c_name caller) (c_phone_number caller)) ''Unknown'';
                  callerPhone = or_default (c_phone_number caller) ''Unknown'';
                  callTime = or_default (or_else (o_date_time callObj) (o_ringing_start_time callObj))
                               (toISOString env (now env));
                  duration = (case o_duration callObj of None \<Rightarrow> 0 | Some d \<Rightarrow> d)
              in case date_of env callTime of
                   Inl e \<Rightarrow> rethrow e w
                 | Inr t \<Rightarrow>
                     (let leadItem =
                            \<lparr>sl_channel = ''Zoom Phone'',
                             sl_summary = ''Missed call from '' @ callerName,
                             sl_priority = ''High'', sl_owner = None, sl_status = ''New'',
                             sl_callTimestamp = toISOString env t,
                             sl_voicemailLink = None, sl_transcript = None,
                             sl_callId = o_call_id callObj, sl_plannerTaskId = None\<rparr>;
                          taskTitle = ''Follow up: Missed call from '' @ callerName;
                          taskDetails =
                            nl @ ''Call ID: '' @ text_of (o_call_id callObj) @
                            nl @ ''Caller: '' @ callerName @
                            nl @ ''Phone: '' @ callerPhone @
                            nl @ ''Time: '' @ toLocaleString env t @
                            nl @ ''Duration: '' @ number_text env duration @ ''s'' @
                            nl @ nl @ ''Please follow up with this missed call.'' @ nl @ ''      '';
                          teamsMessage =
                            nl @ ''<h2>'' @ bell_sign @ '' New Sales Lead - Missed Call</h2>'' @
                            nl @ ''<p><strong>Caller:</strong> '' @ callerName @ ''</p>'' @
                            nl @ ''<p><strong>Phone:</strong> '' @ callerPhone @ ''</p>'' @
                            nl @ ''<p><strong>Time:</strong> '' @ toLocaleString env t @ ''</p>'' @
                            nl @ ''<p><strong>Status:</strong> Needs Follow-up</p>'' @
                            nl @ ''<p>A task has been created in Planner for follow-up.</p>'' @
                            nl @ ''      ''
                      in case lead_with_task env cfg leadItem taskTitle taskDetails True teamsMessage w of
                           (Some e, w') \<Rightarrow> rethrow e w'
                         | (None, w') \<Rightarrow> (None, w'))))"

definition processVoicemail ::
  "js_env \<Rightarrow> config \<Rightarrow> QueueJob queue_job \<Rightarrow> graph_world \<Rightarrow> thrown option \<times> graph_world" where
  "processVoicemail env cfg job w =
     (let rethrow = (\<lambda>e w'. (Some e, log_error (cross_sign @ '' Error processing voicemail: '' @ message e) w'));
          voicemailObj = object (qj_event (data job));
          callerName = or_default (or_else (o_caller_name voicemailObj) (o_caller_number voicemailObj))
                         ''Unknown'';
          callerPhone = or_default (o_caller_number voicemailObj) ''Unknown'';
          callTime = or_default (o_date_time voicemailObj) (toISOString env (now env));
          duration = (case o_duration voicemailObj of None \<Rightarrow> 0 | Some d \<Rightarrow> d);
          downloadUrl = or_default (o_download_url voicemailObj) '''';
          transcript = or_default
            (or_else (case o_transcription voicemailObj of None \<Rightarrow> None | Some content \<Rightarrow> content)
                     (o_transcript voicemailObj)) ''''
      in case date_of env callTime of
           Inl e \<Rightarrow> rethrow e w
         | Inr t \<Rightarrow>
             (let leadItem =
                    \<lparr>sl_channel = ''Zoom Phone'',
                     sl_summary = ''Voicemail from '' @ callerName,
                     sl_priority = ''High'', sl_owner = None, sl_status = ''New'',
                     sl_callTimestamp = toISOString env t,
                     sl_voicemailLink = Some downloadUrl, sl_transcript = Some transcript,
                     sl_callId = or_else (o_call_id voicemailObj) (o_id voicemailObj),
                     sl_plannerTaskId = None\<rparr>;
                  taskTitle = ''Follow up: Voicemail from '' @ callerName;
                  taskDetails =
                    nl @ ''Voicemail ID: '' @ text_of (o_id voicemailObj) @
                    nl @ ''Caller: '' @ callerName @
                    nl @ ''Phone: '' @ callerPhone @
                    nl @ ''Time: '' @ toLocaleString env t @
                    nl @ ''Duration: '' @ number_text env duration @ ''s'' @
                    nl @ nl @ ''Voicemail Recording: '' @ downloadUrl @ nl @
                    (if transcript \<noteq> [] then nl @ ''Transcript:'' @ nl @ transcript @ nl else []) @
                    nl @ ''Please listen to the voicemail and follow up.'';
                  teamsMessage =
                    nl @ ''<h2>'' @ phone_sign @ '' New Sales Lead - Voicemail</h2>'' @
                    nl @ ''<p><strong>Caller:</strong> '' @ callerName @ ''</p>'' @
                    nl @ ''<p><strong>Phone:</strong> '' @ callerPhone @ ''</p>'' @
                    nl @ ''<p><strong>Time:</strong> '' @ toLocaleString env t @ ''</p>'' @
                    nl @ ''<p><strong>Duration:</strong> '' @ number_text env duration @ ''s</p>'' @
                    nl @ ''<p><a href='' @ dquote @ downloadUrl @ dquote @ ''>Listen to Voicemail</a></p>'' @
                    nl @ ''<p><strong>Transcript:</strong></p>'' @
                    nl @ ''<blockquote>'' @ (if transcript \<noteq> [] then transcript else ''No transcript available.'') @
                          ''</blockquote>'' @
                    nl @ ''<p>A task has been created in Planner for follow-up.</p>'' @
                    nl @ ''      ''
              in case lead_with_task env cfg leadItem taskTitle taskDetails (transcript \<noteq> [])
                        teamsMessage w of
                   (Some e, w') \<Rightarrow> rethrow e w'
                 | (None, w') \<Rightarrow> (None, w')))"

subsection \<open>Observations on the requests and on the store\<close>

text \<open>
  The link-back is the one request that patches the field \<^verbatim>\<open>PlannerTaskId\<close> of a lead; the
  reads of task details count the attempts of the detail patch; \<open>stored l c w k\<close> lists the
  value of field \<open>k\<close> in every record of list \<open>l\<close> that carries the call id \<open>c\<close>.
\<close>

definition is_link_back :: "request \<Rightarrow> bool" where
  "is_link_back r =
     (case r of PatchItem l i u \<Rightarrow> l = SalesLeads \<and> map fst u = [''PlannerTaskId''] | _ \<Rightarrow> False)"

definition link_backs :: "graph_world \<Rightarrow> request list" where
  "link_backs w = filter is_link_back (sent w)"

definition is_details_read :: "request \<Rightarrow> bool" where
  "is_details_read r = (case r of GetTaskDetails i \<Rightarrow> True | _ \<Rightarrow> False)"

definition details_reads :: "graph_world \<Rightarrow> nat" where
  "details_reads w = length (filter is_details_read (sent w))"


subsection \<open>Sample events, items and worlds\<close>

text \<open>
  Concrete inputs on which the properties below are evaluated: an environment with one
  valid date text, a configuration, a missed-call job, fault scripts, records and a world
  that holds one task.
\<close>

definition test_env :: js_env where
  "test_env =
     \<lparr>now = 1700000000000,
      parse_date = (\<lambda>s. if s = ''2023-11-14T22:13:20.000Z'' then Some 1700000000000 else None),
      toISOString = (\<lambda>t. ''2023-11-14T22:13:20.000Z''),
      toLocaleString = (\<lambda>t. ''11/14/2023, 10:13:20 PM''),
      number_text = (\<lambda>n. if n = 0 then ''0'' else ''12''),
      strip_html = (\<lambda>s. s)\<rparr>"

definition test_config :: config where
  "test_config = \<lparr>plannerPlanId = ''plan-1'', teamsWebhookUrl = Some ''https://teams.example/hook''\<rparr>"

definition missed_call_event :: zoom_webhook_event where
  "missed_call_event =
     \<lparr>event = ''phone.callee_missed'', event_ts = 0, account_id = ''acct'',
      object = empty_object\<lparr>o_call_id := Some ''C1'',
        o_caller := Some \<lparr>c_name = Some ''Ann'', c_phone_number = Some ''+15550001111''\<rparr>,
        o_date_time := Some ''2023-11-14T22:13:20.000Z''\<rparr>\<rparr>"

definition missed_call_job :: "QueueJob queue_job" where
  "missed_call_job = \<lparr>job_id = 1, data = \<lparr>qj_type = missed_call, qj_event = missed_call_event\<rparr>\<rparr>"

definition fails_at :: "nat \<Rightarrow> nat \<Rightarrow> thrown option" where
  "fails_at k n = (if n = k then Some (ErrorObj ''Service Unavailable'') else None)"

definition no_faults :: "nat \<Rightarrow> thrown option" where
  "no_faults n = None"

definition call_logged :: SalesCallItem where
  "call_logged =
     \<lparr>sc_contact = ''Test Customer (+15559998888)'', sc_summary = ''Test Customer'',
      sc_priority = ''Medium'', sc_owner = None, sc_status = ''Completed'',
      sc_callTimestamp = ''2023-11-14T22:13:20.000Z'', sc_recordingLink = None,
      sc_transcript = None, sc_aiSummary = None, sc_callId = Some ''TEST-CALL-1'',
      sc_duration = 120\<rparr>"




definition conflicts :: "nat list \<Rightarrow> nat \<Rightarrow> thrown option" where
  "conflicts ks n = (if n \<in> set ks then Some (ErrorObj ''Conflict'') else None)"

definition task_world :: "(nat \<Rightarrow> thrown option) \<Rightarrow> graph_world" where
  "task_world f =
     (new_world f)\<lparr>plannerTasks :=
        [\<lparr>pt_id = ''T1'', pt_planId = ''plan-1'', pt_title = ''Follow up'', pt_dueDateTime = None,
          pt_description = Some ''first note'', pt_etag = 7\<rparr>]\<rparr>"

section \<open>The execution of one job, attempt by attempt\<close>

lemma finish_Finished [simp]: "finish (Finished r, q) = (r, q)"
  by (simp add: finish_def)

lemma finish_Suspended: "finish (Suspended t, q) = finish (resume t q)"
  by (cases "resume t q") (simp add: finish_def)

lemma loop_head_exit: "\<not> attempt \<le> n \<Longrightarrow> loop_head job options n attempt lastError q = after_loop job lastError q"
  by (subst loop_head.simps) simp

lemma finish_catch:
  "attempt < n \<Longrightarrow>
   finish (on_catch job options n attempt e q) =
   finish (loop_head job options n (attempt + 1) (Some (toError e)) (slept options attempt q))"
  by (subst on_catch.simps)
     (simp add: Let_def slept_def finish_Suspended resume_def)

lemma finish_catch_last:
  "\<not> attempt < n \<Longrightarrow>
   finish (on_catch job options n attempt e q) = finish (after_loop job (Some (toError e)) q)"
  by (subst on_catch.simps) (simp add: Let_def loop_head_exit)

lemma finish_attempt_fails:
  "handler q = Some h \<Longrightarrow> attempt \<le> n \<Longrightarrow> h job attempt \<noteq> Resolves \<Longrightarrow>
   finish (loop_head job options n attempt lastError q) =
   finish (on_catch job options n attempt (thrown_of (h job attempt))
             (q\<lparr>trace := trace q @ [HandlerCalled job attempt]\<rparr>))"
  by (subst loop_head.simps)
     (simp add: invoke_def thrown_of_def finish_Suspended resume_def split: settle.splits)

lemma finish_attempt_resolves:
  "handler q = Some h \<Longrightarrow> attempt \<le> n \<Longrightarrow> h job attempt = Resolves \<Longrightarrow>
   finish (loop_head job options n attempt lastError q) =
   (let q1 = succeeded job (q\<lparr>trace := trace q @ [HandlerCalled job attempt]\<rparr>)
    in case forEach (on_completed (listeners q1)) (CompletedArgs job) (trace q1) of
         (Some e, tr) \<Rightarrow> finish (on_catch job options n attempt e (q1\<lparr>trace := tr\<rparr>))
       | (None, tr) \<Rightarrow> (Fulfilled, q1\<lparr>trace := tr\<rparr>))"
  by (subst loop_head.simps)
     (simp add: invoke_def finish_Suspended resume_def succeeded_def Let_def split: prod.splits option.splits)

lemma forEach_quiet:
  "\<forall>l \<in> set ls. lbody l args = None \<Longrightarrow>
   forEach ls args tr = (None, tr @ map (\<lambda>l. ListenerCalled (lname l) args) ls)"
  by (induction ls arbitrary: tr) auto

lemma forEach_throws:
  "\<forall>l \<in> set ls. lbody l args = None \<Longrightarrow> lbody l' args = Some e \<Longrightarrow>
   forEach (ls @ l' # ls') args tr =
     (Some e, tr @ map (\<lambda>l. ListenerCalled (lname l) args) (ls @ [l']))"
  by (induction ls arbitrary: tr) auto

lemma handler_calls_append [simp]: "handler_calls (xs @ ys) = handler_calls xs @ handler_calls ys"
  by (simp add: handler_calls_def)
lemma notified_append [simp]: "notified (xs @ ys) = notified xs @ notified ys"
  by (simp add: notified_def)
lemma sleeps_append [simp]: "sleeps (xs @ ys) = sleeps xs @ sleeps ys"
  by (simp add: sleeps_def)
lemma projections_Nil [simp]: "handler_calls [] = []" "notified [] = []" "sleeps [] = []"
  by (simp_all add: handler_calls_def notified_def sleeps_def)
lemma projections_Cons [simp]:
  "handler_calls (HandlerCalled j a # es) = (j, a) # handler_calls es"
  "handler_calls (ListenerCalled l args # es) = handler_calls es"
  "handler_calls (Slept d # es) = handler_calls es"
  "handler_calls (Unhandled e # es) = handler_calls es"
  "notified (HandlerCalled j a # es) = notified es"
  "notified (ListenerCalled l args # es) = (l, args) # notified es"
  "notified (Slept d # es) = notified es"
  "notified (Unhandled e # es) = notified es"
  "sleeps (HandlerCalled j a # es) = sleeps es"
  "sleeps (ListenerCalled l args # es) = sleeps es"
  "sleeps (Slept d # es) = d # sleeps es"
  "sleeps (Unhandled e # es) = sleeps es"
  by (simp_all add: handler_calls_def notified_def sleeps_def)
lemma projections_listeners [simp]:
  "handler_calls (map (\<lambda>l. ListenerCalled (f l) args) ls) = []"
  "notified (map (\<lambda>l. ListenerCalled (f l) args) ls) = map (\<lambda>l. (f l, args)) ls"
  "sleeps (map (\<lambda>l. ListenerCalled (f l) args) ls) = []"
  by (induction ls) simp_all

text \<open>The parts of the queue that an execution leaves as they are, or changes in a known way.\<close>

lemma slept_frame:
  "handler (slept options a q) = handler q" "listeners (slept options a q) = listeners q"
  "active (counts (slept options a q)) = active (counts q)"
  "completed (counts (slept options a q)) = completed (counts q)"
  "failed (counts (slept options a q)) = failed (counts q)"
  "handler_calls (trace (slept options a q)) = handler_calls (trace q)"
  "notified (trace (slept options a q)) = notified (trace q)"
  "sleeps (trace (slept options a q)) = sleeps (trace q) @ filter (\<lambda>d. 0 < d) [getBackoffDelay (backoff options) a]"
  by (simp_all add: slept_def Let_def)

lemma all_attempts_fail:
  assumes "handler q = Some h" and "a \<le> n" and "\<forall>i. a \<le> i \<and> i \<le> n \<longrightarrow> h job i \<noteq> Resolves"
  shows "\<exists>q'. finish (loop_head job options n a lastError q) =
                finish (after_loop job (Some (toError (thrown_of (h job n)))) q') \<and>
              retried job options a n q q'"
  using assms
proof (induction "nat (n - a)" arbitrary: a lastError q)
  case 0
  then have an: "a = n" by simp
  let ?q1 = "q\<lparr>trace := trace q @ [HandlerCalled job n]\<rparr>"
  have "finish (loop_head job options n a lastError q) =
        finish (after_loop job (Some (toError (thrown_of (h job n)))) ?q1)"
    using "0.prems" an by (simp add: finish_attempt_fails finish_catch_last)
  moreover have "retried job options a n q ?q1"
    using an by (simp add: retried_def)
  ultimately show ?case by blast
next
  case (Suc m)
  then have lt: "a < n" by simp
  let ?q1 = "q\<lparr>trace := trace q @ [HandlerCalled job a]\<rparr>"
  let ?q2 = "slept options a ?q1"
  have fails: "h job a \<noteq> Resolves" using Suc.prems lt by simp
  have step: "finish (loop_head job options n a lastError q) =
        finish (loop_head job options n (a + 1) (Some (toError (thrown_of (h job a)))) ?q2)"
    using Suc.prems(1) lt fails by (simp add: finish_attempt_fails finish_catch)
  have "m = nat (n - (a + 1))" using Suc.hyps(2) by simp
  moreover have "handler ?q2 = Some h" using Suc.prems(1) by (simp add: slept_frame)
  moreover have "a + 1 \<le> n" using lt by simp
  moreover have "\<forall>i. a + 1 \<le> i \<and> i \<le> n \<longrightarrow> h job i \<noteq> Resolves" using Suc.prems(3) by simp
  ultimately obtain q' where
    run: "finish (loop_head job options n (a + 1) (Some (toError (thrown_of (h job a)))) ?q2) =
          finish (after_loop job (Some (toError (thrown_of (h job n)))) q')"
    and ret: "retried job options (a + 1) n ?q2 q'"
    using Suc.hyps(1)[of "a + 1" ?q2 "Some (toError (thrown_of (h job a)))"] by blast
  have up: "[a..n] = a # [a + 1..n]" "[a..n - 1] = a # [a + 1..n - 1]"
    using lt by (simp_all add: upto_rec1)
  have "retried job options a n q q'"
    using ret by (simp add: retried_def slept_frame up)
  with step run show ?case by metis
qed

lemma first_success:
  assumes "handler q = Some h" and "a \<le> k" and "k \<le> n"
    and "\<forall>i. a \<le> i \<and> i < k \<longrightarrow> h job i \<noteq> Resolves" and "h job k = Resolves"
    and "\<forall>l \<in> set (on_completed (listeners q)). lbody l (CompletedArgs job) = None"
  shows "\<exists>q'. finish (loop_head job options n a lastError q) = (Fulfilled, q') \<and>
              completed_run job options a k q q'"
  using assms
proof (induction "nat (k - a)" arbitrary: a lastError q)
  case 0
  then have ak: "a = k" by simp
  let ?q1 = "succeeded job (q\<lparr>trace := trace q @ [HandlerCalled job k]\<rparr>)"
  let ?q' = "?q1\<lparr>trace := trace ?q1 @ map (\<lambda>l. ListenerCalled (lname l) (CompletedArgs job))
                 (on_completed (listeners q))\<rparr>"
  have ls: "on_completed (listeners ?q1) = on_completed (listeners q)"
    by (simp add: succeeded_def)
  have "finish (loop_head job options n a lastError q) = (Fulfilled, ?q')"
    using "0.prems" ak by (simp add: finish_attempt_resolves Let_def ls forEach_quiet)
  moreover have "completed_run job options a k q ?q'"
    using ak by (simp add: completed_run_def succeeded_def)
  ultimately show ?case by blast
next
  case (Suc m)
  then have lt: "a < k" by simp
  then have ltn: "a < n" using Suc.prems by simp
  let ?q1 = "q\<lparr>trace := trace q @ [HandlerCalled job a]\<rparr>"
  let ?q2 = "slept options a ?q1"
  have fails: "h job a \<noteq> Resolves" using Suc.prems lt by simp
  have step: "finish (loop_head job options n a lastError q) =
        finish (loop_head job options n (a + 1) (Some (toError (thrown_of (h job a)))) ?q2)"
    using Suc.prems(1) ltn fails by (simp add: finish_attempt_fails finish_catch)
  have "m = nat (k - (a + 1))" using Suc.hyps(2) by simp
  moreover have "handler ?q2 = Some h" using Suc.prems(1) by (simp add: slept_frame)
  moreover have "a + 1 \<le> k" using lt by simp
  moreover have "\<forall>i. a + 1 \<le> i \<and> i < k \<longrightarrow> h job i \<noteq> Resolves" using Suc.prems(4) by simp
  moreover have "\<forall>l \<in> set (on_completed (listeners ?q2)). lbody l (CompletedArgs job) = None"
    using Suc.prems(6) by (simp add: slept_frame)
  ultimately obtain q' where
    run: "finish (loop_head job options n (a + 1) (Some (toError (thrown_of (h job a)))) ?q2) =
          (Fulfilled, q')"
    and ret: "completed_run job options (a + 1) k ?q2 q'"
    using Suc.hyps(1)[of "a + 1" ?q2 "Some (toError (thrown_of (h job a)))"]
      Suc.prems(3) Suc.prems(5) by blast
  have up: "[a..k] = a # [a + 1..k]" "[a..k - 1] = a # [a + 1..k - 1]"
    using lt by (simp_all add: upto_rec1)
  have "completed_run job options a k q q'"
    using ret by (simp add: completed_run_def slept_frame up)
  with step run show ?case by metis
qed

text \<open>The failed transition, whatever the failed and error listeners do.\<close>

lemma forEach_any:
  "forEach ls args tr = (r, tr') \<Longrightarrow>
     r = first_throw ls args \<and> handler_calls tr' = handler_calls tr \<and> sleeps tr' = sleeps tr \<and>
     notified tr' = notified tr @ called ls args"
  by (induction ls arbitrary: tr)
     (auto simp: first_throw_def called_def split: option.splits)

lemma called_quiet:
  "\<forall>l \<in> set ls. lbody l args = None \<Longrightarrow> called ls args = map (\<lambda>l. (lname l, args)) ls \<and> first_throw ls args = None"
  by (induction ls) (auto simp: called_def first_throw_def)

lemma after_loop_result:
  assumes "finish (after_loop job (Some e) q) = (r, q')"
  shows "handler q' = handler q \<and> listeners q' = listeners q \<and>
         active (counts q') = max 0 (active (counts q) - 1) \<and>
         completed (counts q') = completed (counts q) \<and>
         failed (counts q') = failed (counts q) + 1 \<and>
         handler_calls (trace q') = handler_calls (trace q) \<and>
         sleeps (trace q') = sleeps (trace q) \<and>
         (case first_throw (on_failed (listeners q)) (FailedArgs job e) of
            Some x \<Rightarrow> r = Rejected x \<and>
              notified (trace q') = notified (trace q) @ called (on_failed (listeners q)) (FailedArgs job e)
          | None \<Rightarrow>
              r = (case first_throw (on_error (listeners q)) (ErrorArgs e) of
                     Some x \<Rightarrow> Rejected x | None \<Rightarrow> Fulfilled) \<and>
              notified (trace q') = notified (trace q) @
                  called (on_failed (listeners q)) (FailedArgs job e) @
                  called (on_error (listeners q)) (ErrorArgs e))"
  using assms
  by (auto simp: after_loop_def Let_def split: prod.splits option.splits dest!: forEach_any)

lemma execute_unfold:
  "execute job options q =
     finish (loop_head job options (max 1 (case attempts options of Some a \<Rightarrow> a | None \<Rightarrow> 1)) 1 None
       (q\<lparr>counts := (counts q)\<lparr>waiting := max 0 (waiting (counts q) - 1),
                                  active := active (counts q) + 1\<rparr>\<rparr>))"
  by (simp add: execute_def execute_start_def Let_def)

lemma watched_queue_simps:
  "handler (watched_queue c f e h) = Some h"
  "listeners (watched_queue c f e h) = \<lparr>on_completed = [c], on_failed = [f], on_error = [e]\<rparr>"
  "trace (watched_queue c f e h) = []"
  "counts (watched_queue c f e h) =
     \<lparr>waiting = 0, active = 0, completed = 0, failed = 0, delayed = 0, paused = 0\<rparr>"
  by (simp_all add: watched_queue_def process_def on_def new_queue_def Let_def)

lemma started_append [simp]: "started (xs @ ys) = started xs @ started ys"
  by (simp add: started_def)

lemma started_Nil [simp]: "started [] = []"
  by (simp add: started_def)

lemma started_Cons [simp]:
  "started (HandlerCalled j a # es) = (if a = 1 then j # started es else started es)"
  "started (ListenerCalled l args # es) = started es"
  "started (Slept d # es) = started es"
  "started (Unhandled e # es) = started es"
  by (simp_all add: started_def)

lemma started_handler_calls: "handler_calls tr' = handler_calls tr \<Longrightarrow> started tr' = started tr"
  by (simp add: started_def)

lemma after_loop_frame:
  "after_loop job lastError q = (p, q') \<Longrightarrow>
     same_buffer q q' \<and> handler_calls (trace q') = handler_calls (trace q)"
  by (auto simp: after_loop_def Let_def same_buffer_def split: prod.splits option.splits
      dest!: forEach_any)

lemma loop_head_frame:
  "loop_head job options n a lastError q = (p, q') \<Longrightarrow>
     same_buffer q q' \<and> (1 < a \<longrightarrow> started (trace q') = started (trace q))"
  and on_catch_frame:
  "on_catch job options n a e q = (p, q') \<Longrightarrow>
     same_buffer q q' \<and> (1 \<le> a \<longrightarrow> started (trace q') = started (trace q))"
proof (induction job options n a lastError q and job options n a e q
    arbitrary: p q' and p q' rule: loop_head_on_catch.induct)
  case (1 job options n attempt lastError q)
  show ?case
  proof (cases "attempt \<le> n")
    case False
    with "1.prems" have "after_loop job lastError q = (p, q')"
      by (simp add: loop_head_exit)
    from after_loop_frame[OF this] show ?thesis
      by (blast intro: started_handler_calls)
  next
    case True
    obtain s q1 where inv: "invoke job attempt q = (s, q1)"
      by (cases "invoke job attempt q")
    then have q1: "same_buffer q q1"
      "1 < attempt \<longrightarrow> started (trace q1) = started (trace q)"
      by (auto simp: invoke_def same_buffer_def split: option.splits)
    show ?thesis
    proof (cases s)
      case (Throws e)
      with "1.prems" True inv have "on_catch job options n attempt e q1 = (p, q')"
        by (subst (asm) loop_head.simps) simp
      from "1.IH"[OF True inv[symmetric] Throws this] q1 show ?thesis
        by (auto simp: same_buffer_def)
    next
      case Resolves
      with "1.prems" True inv have "q' = q1"
        by (subst (asm) loop_head.simps) simp
      with q1 show ?thesis by simp
    next
      case (Rejects e)
      with "1.prems" True inv have "q' = q1"
        by (subst (asm) loop_head.simps) simp
      with q1 show ?thesis by simp
    qed
  qed
next
  case (2 job options n attempt e q)
  show ?case
  proof (cases "attempt < n")
    case False
    with "2.prems" have "loop_head job options n (attempt + 1) (Some (toError e)) q = (p, q')"
      by (subst (asm) on_catch.simps) (simp add: Let_def)
    from "2.IH"(2)[OF refl False this] show ?thesis by auto
  next
    case True
    show ?thesis
    proof (cases "0 < getBackoffDelay (backoff options) attempt")
      case d: True
      with "2.prems" True show ?thesis
        by (subst (asm) on_catch.simps) (auto simp: Let_def same_buffer_def)
    next
      case d: False
      with "2.prems" True have
        "loop_head job options n (attempt + 1) (Some (toError e)) q = (p, q')"
        by (subst (asm) on_catch.simps) (simp add: Let_def)
      from "2.IH"(1)[OF refl True refl d this] show ?thesis by auto
    qed
  qed
qed

lemma execute_start_started:
  assumes "handler q = Some h" and "execute_start job options q = (p, q')"
  shows "same_buffer q q' \<and> started (trace q') = started (trace q) @ [job]"
proof -
  let ?n = "max 1 (case attempts options of Some a \<Rightarrow> a | None \<Rightarrow> 1)"
  let ?q1 = "q\<lparr>counts := (counts q)\<lparr>waiting := max 0 (waiting (counts q) - 1),
                                      active := active (counts q) + 1\<rparr>\<rparr>"
  let ?q2 = "?q1\<lparr>trace := trace q @ [HandlerCalled job 1]\<rparr>"
  have run: "loop_head job options ?n 1 None ?q1 = (p, q')"
    using assms(2) by (simp add: execute_start_def Let_def)
  have inv: "invoke job 1 ?q1 = (h job 1, ?q2)"
    using assms(1) by (simp add: invoke_def)
  show ?thesis
  proof (cases "h job 1")
    case (Throws e)
    with run inv have "on_catch job options ?n 1 e ?q2 = (p, q')"
      by (subst (asm) loop_head.simps) simp
    from on_catch_frame[OF this] show ?thesis by (simp add: same_buffer_def)
  next
    case Resolves
    with run inv have "q' = ?q2" by (subst (asm) loop_head.simps) simp
    then show ?thesis by (simp add: same_buffer_def)
  next
    case (Rejects e)
    with run inv have "q' = ?q2" by (subst (asm) loop_head.simps) simp
    then show ?thesis by (simp add: same_buffer_def)
  qed
qed

lemma launch_started:
  assumes "handler q = Some h"
  shows "handler (launch job options q) = Some h \<and> pending (launch job options q) = pending q \<and>
         nextId (launch job options q) = nextId q \<and>
         started (trace (launch job options q)) = started (trace q) @ [job]"
proof -
  obtain p q' where es: "execute_start job options q = (p, q')"
    by (cases "execute_start job options q")
  from execute_start_started[OF assms es] assms es show ?thesis
    by (cases p) (auto simp: launch_def same_buffer_def split: outcome.splits)
qed

lemma launch_all_started:
  "handler q = Some h \<Longrightarrow>
   handler (foldl (\<lambda>s (job, options). launch job options s) q js) = Some h \<and>
   pending (foldl (\<lambda>s (job, options). launch job options s) q js) = pending q \<and>
   nextId (foldl (\<lambda>s (job, options). launch job options s) q js) = nextId q \<and>
   started (trace (foldl (\<lambda>s (job, options). launch job options s) q js)) =
     started (trace q) @ map fst js"
proof (induction js arbitrary: q)
  case Nil
  then show ?case by simp
next
  case (Cons j js)
  obtain job options where j: "j = (job, options)" by (cases j)
  from launch_started[OF Cons.prems, of job options] Cons.IH[of "launch job options q"]
  show ?case by (simp add: j)
qed

lemma process_drains:
  "pending (process h q) = [] \<and>
   started (trace (process h q)) = started (trace q) @ map fst (pending q) \<and>
   handler (process h q) = Some h \<and> nextId (process h q) = nextId q"
proof (cases "pending q = []")
  case True
  then show ?thesis by (simp add: process_def)
next
  case False
  let ?q2 = "q\<lparr>handler := Some h, pending := [],
      counts := (counts q)\<lparr>waiting := int (length (pending q))\<rparr>\<rparr>"
  have "handler ?q2 = Some h" by simp
  from launch_all_started[OF this, of "pending q"] False show ?thesis
    by (simp add: process_def Let_def)
qed

lemma add_all_buffers:
  "handler q = None \<Longrightarrow>
   handler (add_all ds q) = None \<and>
   pending (add_all ds q) = pending q @ numbered (nextId q) ds \<and>
   trace (add_all ds q) = trace q"
proof (induction ds arbitrary: q)
  case Nil
  then show ?case by simp
next
  case (Cons x ds)
  obtain d options where x: "x = (d, options)" by (cases x)
  have "handler (add d options q) = None"
    "pending (add d options q) = pending q @ [(\<lparr>job_id = nextId q, data = d\<rparr>, options)]"
    "nextId (add d options q) = Suc (nextId q)" "trace (add d options q) = trace q"
    using Cons.prems by (simp_all add: add_def Let_def)
  with Cons.IH[of "add d options q"] show ?case by (simp add: x)
qed

lemma completed_listener_throws_last:
  assumes "handler q = Some h" and "h job n = Resolves"
    and "finish (loop_head job options n n lastError q) = (r, q')"
  shows "handler_calls (trace q') = handler_calls (trace q) @ [(job, n)]"
proof -
  let ?q1 = "succeeded job (q\<lparr>trace := trace q @ [HandlerCalled job n]\<rparr>)"
  obtain x tr where fe: "forEach (on_completed (listeners ?q1)) (CompletedArgs job) (trace ?q1) = (x, tr)"
    by (cases "forEach (on_completed (listeners ?q1)) (CompletedArgs job) (trace ?q1)")
  note any = forEach_any[OF fe]
  have tr: "handler_calls tr = handler_calls (trace q) @ [(job, n)]"
    using any by (simp add: succeeded_def)
  show ?thesis
  proof (cases x)
    case None
    with assms fe have "q' = ?q1\<lparr>trace := tr\<rparr>"
      by (simp add: finish_attempt_resolves Let_def)
    with tr show ?thesis by simp
  next
    case (Some e)
    with assms fe have "finish (after_loop job (Some (toError e)) (?q1\<lparr>trace := tr\<rparr>)) = (r, q')"
      by (simp add: finish_attempt_resolves Let_def finish_catch_last)
    from after_loop_result[OF this] tr show ?thesis by simp
  qed
qed

lemma single_attempt_run:
  assumes "attempts options = None" and "handler q = Some h"
    and "execute job options q = (r, q')"
  shows "handler_calls (trace q') = handler_calls (trace q) @ [(job, 1)] \<and>
         (h job 1 \<noteq> Resolves \<longrightarrow>
            failed (counts q') = failed (counts q) + 1 \<and>
            completed (counts q') = completed (counts q))"
proof -
  let ?q1 = "q\<lparr>counts := (counts q)\<lparr>waiting := max 0 (waiting (counts q) - 1),
                                      active := active (counts q) + 1\<rparr>\<rparr>"
  have run: "finish (loop_head job options 1 1 None ?q1) = (r, q')"
    using assms(1,3) by (simp add: execute_unfold)
  have h1: "handler ?q1 = Some h" using assms(2) by simp
  show ?thesis
  proof (cases "h job 1 = Resolves")
    case True
    from completed_listener_throws_last[OF h1 True run] True show ?thesis by simp
  next
    case False
    then have "\<forall>i. 1 \<le> i \<and> i \<le> 1 \<longrightarrow> h job i \<noteq> Resolves" by auto
    with h1 obtain q2 where
      q2: "finish (loop_head job options 1 1 None ?q1) =
           finish (after_loop job (Some (toError (thrown_of (h job 1)))) q2)"
      and ret: "retried job options 1 1 ?q1 q2"
      using all_attempts_fail[of ?q1 h 1 1 job options None] by blast
    from q2 run have "finish (after_loop job (Some (toError (thrown_of (h job 1)))) q2) = (r, q')"
      by simp
    from after_loop_result[OF this] ret show ?thesis
      by (simp add: retried_def)
  qed
qed

lemma exhausted_run:
  assumes "handler q = Some h"
    and "N = max 1 (case attempts options of Some a \<Rightarrow> a | None \<Rightarrow> 1)"
    and "\<forall>i. 1 \<le> i \<and> i \<le> N \<longrightarrow> h job i \<noteq> Resolves"
    and "execute job options q = (r, q')"
    and "e = toError (thrown_of (h job N))"
  shows "failed (counts q') = failed (counts q) + 1 \<and>
         completed (counts q') = completed (counts q) \<and>
         active (counts q') = max 0 (active (counts q)) \<and>
         handler_calls (trace q') = handler_calls (trace q) @ map (Pair job) [1..N] \<and>
         r = (case first_throw (on_failed (listeners q)) (FailedArgs job e) of
                Some x \<Rightarrow> Rejected x
              | None \<Rightarrow> (case first_throw (on_error (listeners q)) (ErrorArgs e) of
                           Some x \<Rightarrow> Rejected x | None \<Rightarrow> Fulfilled)) \<and>
         notified (trace q') = notified (trace q) @
           called (on_failed (listeners q)) (FailedArgs job e) @
           (case first_throw (on_failed (listeners q)) (FailedArgs job e) of
              Some x \<Rightarrow> [] | None \<Rightarrow> called (on_error (listeners q)) (ErrorArgs e))"
proof -
  let ?q1 = "q\<lparr>counts := (counts q)\<lparr>waiting := max 0 (waiting (counts q) - 1),
                                      active := active (counts q) + 1\<rparr>\<rparr>"
  have run: "finish (loop_head job options N 1 None ?q1) = (r, q')"
    using assms(2,4) by (simp add: execute_unfold)
  have h1: "handler ?q1 = Some h" using assms(1) by simp
  have "1 \<le> N" using assms(2) by simp
  with assms(3) h1 obtain q2 where
    q2: "finish (loop_head job options N 1 None ?q1) = finish (after_loop job (Some e) q2)"
    and ret: "retried job options 1 N ?q1 q2"
    using all_attempts_fail[of ?q1 h 1 N job options None] assms(5) by blast
  from q2 run have "finish (after_loop job (Some e) q2) = (r, q')" by simp
  note fin = after_loop_result[OF this]
  have ls: "listeners q2 = listeners q" using ret by (simp add: retried_def)
  show ?thesis
    using fin ret by (auto simp: ls retried_def split: option.splits)
qed

section \<open>Properties of the in-memory queue\<close>

text \<open>
  C4. For an exponential backoff with base delay \<open>D\<close> and a just-failed attempt number
  \<open>k \<ge> 1\<close> the retry delay is \<open>D * 2 ^ (k - 1)\<close>; a numeric backoff and a typed backoff
  that is not exponential give the same delay for every retry (a missing \<^verbatim>\<open>delay\<close> counts as
  0); with no backoff the delay is 0.
\<close>

theorem getBackoffDelay_policy:
  "1 \<le> k \<Longrightarrow>
     getBackoffDelay (Some (BackoffOptions ''exponential'' (Some D))) (int k) = D * 2 ^ (k - 1) \<and>
     getBackoffDelay (Some (BackoffNumber d)) (int k) = d \<and>
     getBackoffDelay (Some (BackoffOptions ty dl)) (int k) =
       (if ty = ''exponential'' then (case dl of Some b \<Rightarrow> b | None \<Rightarrow> 0) * 2 ^ (k - 1)
        else (case dl of Some b \<Rightarrow> b | None \<Rightarrow> 0)) \<and>
     getBackoffDelay None (int k) = 0"
  by (cases k) (auto simp: getBackoffDelay_def Let_def nat_diff_distrib split: option.splits)

theorem getBackoffDelay_policy_witness:
  "(1::nat) \<le> 3 \<and>
   getBackoffDelay (Some (BackoffOptions ''exponential'' (Some 2000))) 3 = 8000 \<and>
   getBackoffDelay (Some (BackoffNumber 100)) 3 = 100 \<and>
   getBackoffDelay (Some (BackoffOptions ''fixed'' (Some 100))) 3 = 100 \<and>
   getBackoffDelay None 3 = 0"
  using getBackoffDelay_policy[of 3 2000 100 "''fixed''" "Some 100"] by simp

text \<open>
  C3. A job executed with \<^verbatim>\<open>attempts = N \<ge> 1\<close> on a queue with a registered handler. If
  the handler first succeeds on attempt \<open>k \<le> N\<close> and the completed listeners return normally,
  the handler is invoked exactly \<open>k\<close> times (attempts 1 to \<open>k\<close>), every completed listener is
  called exactly once with the job, and no failed or error listener is called. If all \<open>N\<close>
  attempts fail and the failed and error listeners return normally, the handler is invoked
  exactly \<open>N\<close> times, every failed listener is called once with the job and the last error,
  then every error listener once with the last error, the failed count grows by one and the
  job no longer counts as active. The two conditions on the listeners are needed: the
  completed listeners run inside the \<^verbatim>\<open>try\<close> block of the attempt, and nothing catches what a
  failed or an error listener throws.
\<close>

theorem execute_retry_semantics:
  assumes "handler q = Some h" and "attempts options = Some N" and "1 \<le> N"
    and "execute job options q = (r, q')"
  shows "(1 \<le> k \<and> k \<le> N \<and> (\<forall>i. 1 \<le> i \<and> i < k \<longrightarrow> h job i \<noteq> Resolves) \<and> h job k = Resolves \<and>
          (\<forall>l \<in> set (on_completed (listeners q)). lbody l (CompletedArgs job) = None) \<longrightarrow>
           r = Fulfilled \<and>
           handler_calls (trace q') = handler_calls (trace q) @ map (Pair job) [1..k] \<and>
           length (handler_calls (trace q')) = length (handler_calls (trace q)) + nat k \<and>
           notified (trace q') = notified (trace q) @
             map (\<lambda>l. (lname l, CompletedArgs job)) (on_completed (listeners q)) \<and>
           completed (counts q') = completed (counts q) + 1 \<and>
           failed (counts q') = failed (counts q) \<and>
           active (counts q') = max 0 (active (counts q))) \<and>
         ((\<forall>i. 1 \<le> i \<and> i \<le> N \<longrightarrow> h job i \<noteq> Resolves) \<and>
          (\<forall>l \<in> set (on_failed (listeners q)).
             lbody l (FailedArgs job (toError (thrown_of (h job N)))) = None) \<and>
          (\<forall>l \<in> set (on_error (listeners q)).
             lbody l (ErrorArgs (toError (thrown_of (h job N)))) = None) \<longrightarrow>
           r = Fulfilled \<and>
           handler_calls (trace q') = handler_calls (trace q) @ map (Pair job) [1..N] \<and>
           length (handler_calls (trace q')) = length (handler_calls (trace q)) + nat N \<and>
           notified (trace q') = notified (trace q) @
             map (\<lambda>l. (lname l, FailedArgs job (toError (thrown_of (h job N))))) (on_failed (listeners q)) @
             map (\<lambda>l. (lname l, ErrorArgs (toError (thrown_of (h job N))))) (on_error (listeners q)) \<and>
           failed (counts q') = failed (counts q) + 1 \<and>
           completed (counts q') = completed (counts q) \<and>
           active (counts q') = max 0 (active (counts q)))"
proof (intro conjI impI)
  let ?q1 = "q\<lparr>counts := (counts q)\<lparr>waiting := max 0 (waiting (counts q) - 1),
                                      active := active (counts q) + 1\<rparr>\<rparr>"
  have n: "max 1 (case attempts options of Some a \<Rightarrow> a | None \<Rightarrow> 1) = N"
    using assms(2,3) by simp
  have run: "finish (loop_head job options N 1 None ?q1) = (r, q')"
    using assms(4) n by (simp add: execute_unfold)
  have h1: "handler ?q1 = Some h" using assms(1) by simp
  {
    assume ok: "1 \<le> k \<and> k \<le> N \<and> (\<forall>i. 1 \<le> i \<and> i < k \<longrightarrow> h job i \<noteq> Resolves) \<and> h job k = Resolves \<and>
        (\<forall>l \<in> set (on_completed (listeners q)). lbody l (CompletedArgs job) = None)"
    then have "\<forall>l \<in> set (on_completed (listeners ?q1)). lbody l (CompletedArgs job) = None"
      by simp
    with ok h1 obtain q2 where
      "finish (loop_head job options N 1 None ?q1) = (Fulfilled, q2)"
      "completed_run job options 1 k ?q1 q2"
      using first_success[of ?q1 h 1 k N job options None] by blast
    with run have res: "r = Fulfilled" "completed_run job options 1 k ?q1 q'" by simp_all
    show "r = Fulfilled" by (rule res)
    show "handler_calls (trace q') = handler_calls (trace q) @ map (Pair job) [1..k]"
      using res(2) by (simp add: completed_run_def)
    then show "length (handler_calls (trace q')) = length (handler_calls (trace q)) + nat k"
      using ok by simp
    show "notified (trace q') = notified (trace q) @
             map (\<lambda>l. (lname l, CompletedArgs job)) (on_completed (listeners q))"
      using res(2) by (simp add: completed_run_def)
    show "completed (counts q') = completed (counts q) + 1"
      using res(2) by (simp add: completed_run_def)
    show "failed (counts q') = failed (counts q)"
      using res(2) by (simp add: completed_run_def)
    show "active (counts q') = max 0 (active (counts q))"
      using res(2) by (simp add: completed_run_def)
  }
  {
    let ?e = "toError (thrown_of (h job N))"
    assume bad: "(\<forall>i. 1 \<le> i \<and> i \<le> N \<longrightarrow> h job i \<noteq> Resolves) \<and>
        (\<forall>l \<in> set (on_failed (listeners q)). lbody l (FailedArgs job ?e) = None) \<and>
        (\<forall>l \<in> set (on_error (listeners q)). lbody l (ErrorArgs ?e) = None)"
    with h1 assms(3) obtain q2 where
      q2: "finish (loop_head job options N 1 None ?q1) = finish (after_loop job (Some ?e) q2)"
      and ret: "retried job options 1 N ?q1 q2"
      using all_attempts_fail[of ?q1 h 1 N job options None] by blast
    from q2 run have "finish (after_loop job (Some ?e) q2) = (r, q')" by simp
    note fin = after_loop_result[OF this]
    have ls: "listeners q2 = listeners q" using ret by (simp add: retried_def)
    have qf: "\<forall>l \<in> set (on_failed (listeners q)). lbody l (FailedArgs job ?e) = None"
      and qe: "\<forall>l \<in> set (on_error (listeners q)). lbody l (ErrorArgs ?e) = None"
      using bad by auto
    note cf = called_quiet[OF qf] and ce = called_quiet[OF qe]
    show "r = Fulfilled" using fin cf ce by (simp add: ls)
    show "handler_calls (trace q') = handler_calls (trace q) @ map (Pair job) [1..N]"
      using fin ret by (simp add: retried_def)
    then show "length (handler_calls (trace q')) = length (handler_calls (trace q)) + nat N"
      using assms(3) by simp
    show "notified (trace q') = notified (trace q) @
             map (\<lambda>l. (lname l, FailedArgs job ?e)) (on_failed (listeners q)) @
             map (\<lambda>l. (lname l, ErrorArgs ?e)) (on_error (listeners q))"
      using fin cf ce ret by (simp add: ls retried_def)
    show "failed (counts q') = failed (counts q) + 1"
      using fin ret by (simp add: retried_def)
    show "completed (counts q') = completed (counts q)"
      using fin ret by (simp add: retried_def)
    show "active (counts q') = max 0 (active (counts q))"
      using fin ret by (simp add: retried_def)
  }
qed

theorem execute_retry_semantics_witness:
  "fst (execute demo_job \<lparr>attempts = Some 3, backoff = Some (BackoffNumber 100)\<rparr>
         (watched_queue (quiet_listener ''c'') (quiet_listener ''f'') (quiet_listener ''e'') flaky_handler))
     = Fulfilled \<and>
   handler_calls (trace (snd (execute demo_job \<lparr>attempts = Some 3, backoff = Some (BackoffNumber 100)\<rparr>
         (watched_queue (quiet_listener ''c'') (quiet_listener ''f'') (quiet_listener ''e'') flaky_handler))))
     = [(demo_job, 1), (demo_job, 2), (demo_job, 3)] \<and>
   notified (trace (snd (execute demo_job \<lparr>attempts = Some 3, backoff = Some (BackoffNumber 100)\<rparr>
         (watched_queue (quiet_listener ''c'') (quiet_listener ''f'') (quiet_listener ''e'') flaky_handler))))
     = [(''c'', CompletedArgs demo_job)] \<and>
   handler_calls (trace (snd (execute demo_job \<lparr>attempts = Some 3, backoff = None\<rparr>
         (watched_queue (quiet_listener ''c'') (quiet_listener ''f'') (quiet_listener ''e'') failing_handler))))
     = [(demo_job, 1), (demo_job, 2), (demo_job, 3)] \<and>
   notified (trace (snd (execute demo_job \<lparr>attempts = Some 3, backoff = None\<rparr>
         (watched_queue (quiet_listener ''c'') (quiet_listener ''f'') (quiet_listener ''e'') failing_handler))))
     = [(''f'', FailedArgs demo_job (ErrorObj ''boom'')), (''e'', ErrorArgs (ErrorObj ''boom''))] \<and>
   failed (counts (snd (execute demo_job \<lparr>attempts = Some 3, backoff = None\<rparr>
         (watched_queue (quiet_listener ''c'') (quiet_listener ''f'') (quiet_listener ''e'') failing_handler))))
     = 1"
proof -
  let ?w = "\<lambda>h. watched_queue (quiet_listener ''c'') (quiet_listener ''f'') (quiet_listener ''e'') h"
  let ?o1 = "\<lparr>attempts = Some 3, backoff = Some (BackoffNumber 100)\<rparr>"
  let ?o2 = "\<lparr>attempts = Some 3, backoff = None\<rparr>"
  have flaky: "1 \<le> (3::int) \<and> (3::int) \<le> 3 \<and>
      (\<forall>i. 1 \<le> i \<and> i < 3 \<longrightarrow> flaky_handler demo_job i \<noteq> Resolves) \<and>
      flaky_handler demo_job 3 = Resolves \<and>
      (\<forall>l \<in> set (on_completed (listeners (?w flaky_handler))).
         lbody l (CompletedArgs demo_job) = None)"
    by (simp add: flaky_handler_def watched_queue_simps quiet_listener_def)
  have failing: "(\<forall>i. 1 \<le> i \<and> i \<le> 3 \<longrightarrow> failing_handler demo_job i \<noteq> Resolves) \<and>
      (\<forall>l \<in> set (on_failed (listeners (?w failing_handler))).
         lbody l (FailedArgs demo_job (toError (thrown_of (failing_handler demo_job 3)))) = None) \<and>
      (\<forall>l \<in> set (on_error (listeners (?w failing_handler))).
         lbody l (ErrorArgs (toError (thrown_of (failing_handler demo_job 3)))) = None)"
    by (simp add: failing_handler_def watched_queue_simps quiet_listener_def)
  have first: "fst (execute demo_job ?o1 (?w flaky_handler)) = Fulfilled \<and>
      handler_calls (trace (snd (execute demo_job ?o1 (?w flaky_handler)))) =
        handler_calls (trace (?w flaky_handler)) @ map (Pair demo_job) [1..3] \<and>
      notified (trace (snd (execute demo_job ?o1 (?w flaky_handler)))) =
        notified (trace (?w flaky_handler)) @
        map (\<lambda>l. (lname l, CompletedArgs demo_job)) (on_completed (listeners (?w flaky_handler)))"
    using execute_retry_semantics[where q = "?w flaky_handler" and h = flaky_handler
        and options = ?o1 and N = 3 and k = 3 and job = demo_job,
        OF _ _ _ prod.collapse[symmetric]] flaky
    by (simp add: watched_queue_simps)
  have second: "handler_calls (trace (snd (execute demo_job ?o2 (?w failing_handler)))) =
        handler_calls (trace (?w failing_handler)) @ map (Pair demo_job) [1..3] \<and>
      notified (trace (snd (execute demo_job ?o2 (?w failing_handler)))) =
        notified (trace (?w failing_handler)) @
        map (\<lambda>l. (lname l, FailedArgs demo_job (toError (thrown_of (failing_handler demo_job 3)))))
          (on_failed (listeners (?w failing_handler))) @
        map (\<lambda>l. (lname l, ErrorArgs (toError (thrown_of (failing_handler demo_job 3)))))
          (on_error (listeners (?w failing_handler))) \<and>
      failed (counts (snd (execute demo_job ?o2 (?w failing_handler)))) =
        failed (counts (?w failing_handler)) + 1"
    using execute_retry_semantics[where q = "?w failing_handler" and h = failing_handler
        and options = ?o2 and N = 3 and k = 3 and job = demo_job,
        OF _ _ _ prod.collapse[symmetric]] failing
    by (simp add: watched_queue_simps)
  show ?thesis
    using first second
    by (simp add: watched_queue_simps quiet_listener_def failing_handler_def thrown_of_def
        toError_def upto_rec1)
qed

text \<open>
  C3 without the conditions on the listeners fails. A handler that succeeds on attempt 1 of 3
  is called three times when the completed listener throws: each throw is caught as a failure
  of the attempt, the job is counted as completed three times and as failed once, and the
  failed and error listeners are called. A handler that fails on its only attempt, with a
  failed listener that throws: the error listener is never called.
\<close>

theorem retry_semantics_throwing_listener_counterexample:
  "ok_handler demo_job 1 = Resolves \<and>
   handler_calls (trace (snd (execute demo_job \<lparr>attempts = Some 3, backoff = None\<rparr>
      (watched_queue (throwing_listener ''c'') (quiet_listener ''f'') (quiet_listener ''e'') ok_handler))))
     = [(demo_job, 1), (demo_job, 2), (demo_job, 3)] \<and>
   notified (trace (snd (execute demo_job \<lparr>attempts = Some 3, backoff = None\<rparr>
      (watched_queue (throwing_listener ''c'') (quiet_listener ''f'') (quiet_listener ''e'') ok_handler))))
     = [(''c'', CompletedArgs demo_job), (''c'', CompletedArgs demo_job), (''c'', CompletedArgs demo_job),
        (''f'', FailedArgs demo_job (ErrorObj ''listener'')), (''e'', ErrorArgs (ErrorObj ''listener''))] \<and>
   completed (counts (snd (execute demo_job \<lparr>attempts = Some 3, backoff = None\<rparr>
      (watched_queue (throwing_listener ''c'') (quiet_listener ''f'') (quiet_listener ''e'') ok_handler))))
     = 3 \<and>
   failed (counts (snd (execute demo_job \<lparr>attempts = Some 3, backoff = None\<rparr>
      (watched_queue (throwing_listener ''c'') (quiet_listener ''f'') (quiet_listener ''e'') ok_handler))))
     = 1 \<and>
   failing_handler demo_job 1 \<noteq> Resolves \<and>
   handler_calls (trace (snd (execute demo_job \<lparr>attempts = Some 1, backoff = None\<rparr>
      (watched_queue (quiet_listener ''c'') (throwing_listener ''f'') (quiet_listener ''e'') failing_handler))))
     = [(demo_job, 1)] \<and>
   notified (trace (snd (execute demo_job \<lparr>attempts = Some 1, backoff = None\<rparr>
      (watched_queue (quiet_listener ''c'') (throwing_listener ''f'') (quiet_listener ''e'') failing_handler))))
     = [(''f'', FailedArgs demo_job (ErrorObj ''boom''))]"
  by code_simp

text \<open>
  C2, as the code has it. The queue has no catch around its listeners. When every attempt of a
  job has failed, an exception thrown by a failed or an error listener leaves the counters as
  the failed transition sets them (failed plus one, completed unchanged, the job no longer
  active) and the handler is not called again (exactly \<open>N\<close> calls); but the exception is not
  swallowed: the listeners registered after the throwing one are not called for this job, and
  the promise of the execution is rejected with the listener's exception. What an exception
  of a completed listener does is not part of this statement.
\<close>

theorem listener_exception_not_swallowed:
  assumes "handler q = Some h"
    and "N = max 1 (case attempts options of Some a \<Rightarrow> a | None \<Rightarrow> 1)"
    and "\<forall>i. 1 \<le> i \<and> i \<le> N \<longrightarrow> h job i \<noteq> Resolves"
    and "execute job options q = (r, q')"
    and "e = toError (thrown_of (h job N))"
  shows "failed (counts q') = failed (counts q) + 1 \<and>
         completed (counts q') = completed (counts q) \<and>
         active (counts q') = max 0 (active (counts q)) \<and>
         handler_calls (trace q') = handler_calls (trace q) @ map (Pair job) [1..N] \<and>
         r = (case first_throw (on_failed (listeners q)) (FailedArgs job e) of
                Some x \<Rightarrow> Rejected x
              | None \<Rightarrow> (case first_throw (on_error (listeners q)) (ErrorArgs e) of
                           Some x \<Rightarrow> Rejected x | None \<Rightarrow> Fulfilled)) \<and>
         notified (trace q') = notified (trace q) @
           called (on_failed (listeners q)) (FailedArgs job e) @
           (case first_throw (on_failed (listeners q)) (FailedArgs job e) of
              Some x \<Rightarrow> [] | None \<Rightarrow> called (on_error (listeners q)) (ErrorArgs e))"
  using assms by (rule exhausted_run)

theorem listener_exception_not_swallowed_witness:
  "fst (execute demo_job \<lparr>attempts = Some 2, backoff = None\<rparr>
      (watched_queue (quiet_listener ''c'') (throwing_listener ''f'') (quiet_listener ''e'') failing_handler))
     = Rejected (ErrorObj ''listener'') \<and>
   failed (counts (snd (execute demo_job \<lparr>attempts = Some 2, backoff = None\<rparr>
      (watched_queue (quiet_listener ''c'') (throwing_listener ''f'') (quiet_listener ''e'') failing_handler))))
     = 1 \<and>
   handler_calls (trace (snd (execute demo_job \<lparr>attempts = Some 2, backoff = None\<rparr>
      (watched_queue (quiet_listener ''c'') (throwing_listener ''f'') (quiet_listener ''e'') failing_handler))))
     = [(demo_job, 1), (demo_job, 2)] \<and>
   notified (trace (snd (execute demo_job \<lparr>attempts = Some 2, backoff = None\<rparr>
      (watched_queue (quiet_listener ''c'') (throwing_listener ''f'') (quiet_listener ''e'') failing_handler))))
     = [(''f'', FailedArgs demo_job (ErrorObj ''boom''))]"
proof -
  let ?q = "watched_queue (quiet_listener ''c'') (throwing_listener ''f'') (quiet_listener ''e'')
      failing_handler"
  let ?o = "\<lparr>attempts = Some 2, backoff = None\<rparr>"
  have fails: "\<forall>i. 1 \<le> i \<and> i \<le> 2 \<longrightarrow> failing_handler demo_job i \<noteq> Resolves"
    by (simp add: failing_handler_def)
  show ?thesis
    using listener_exception_not_swallowed[where q = ?q and h = failing_handler and N = 2
        and options = ?o and job = demo_job, OF _ _ fails prod.collapse[symmetric] refl]
    by (simp add: watched_queue_simps failing_handler_def thrown_of_def toError_def
        first_throw_def called_def throwing_listener_def quiet_listener_def upto_rec1)
qed

text \<open>
  C2 as stated fails twice. A failed listener that throws is not swallowed: the execution is
  rejected with its exception and the error listener is never told. A completed listener that
  throws is taken for a failure of the handler: with two attempts the handler is called a
  second time, the job is counted as completed twice and as failed once, and the failed and
  error listeners are called.
\<close>

theorem listener_exception_counterexample:
  "fst (execute demo_job \<lparr>attempts = Some 2, backoff = None\<rparr>
      (watched_queue (quiet_listener ''c'') (throwing_listener ''f'') (quiet_listener ''e'') failing_handler))
     = Rejected (ErrorObj ''listener'') \<and>
   notified (trace (snd (execute demo_job \<lparr>attempts = Some 2, backoff = None\<rparr>
      (watched_queue (quiet_listener ''c'') (throwing_listener ''f'') (quiet_listener ''e'') failing_handler))))
     = [(''f'', FailedArgs demo_job (ErrorObj ''boom''))] \<and>
   handler_calls (trace (snd (execute demo_job \<lparr>attempts = Some 2, backoff = None\<rparr>
      (watched_queue (throwing_listener ''c'') (quiet_listener ''f'') (quiet_listener ''e'') ok_handler))))
     = [(demo_job, 1), (demo_job, 2)] \<and>
   completed (counts (snd (execute demo_job \<lparr>attempts = Some 2, backoff = None\<rparr>
      (watched_queue (throwing_listener ''c'') (quiet_listener ''f'') (quiet_listener ''e'') ok_handler))))
     = 2 \<and>
   failed (counts (snd (execute demo_job \<lparr>attempts = Some 2, backoff = None\<rparr>
      (watched_queue (throwing_listener ''c'') (quiet_listener ''f'') (quiet_listener ''e'') ok_handler))))
     = 1 \<and>
   notified (trace (snd (execute demo_job \<lparr>attempts = Some 2, backoff = None\<rparr>
      (watched_queue (throwing_listener ''c'') (quiet_listener ''f'') (quiet_listener ''e'') ok_handler))))
     = [(''c'', CompletedArgs demo_job), (''c'', CompletedArgs demo_job),
        (''f'', FailedArgs demo_job (ErrorObj ''listener'')), (''e'', ErrorArgs (ErrorObj ''listener''))]"
  by code_simp


text \<open>
  C6. Jobs added while no handler is registered are buffered in the order of the calls, with
  consecutive ids; \<^verbatim>\<open>process(handler)\<close> then empties the buffer and calls the handler for the
  first time for exactly the buffered jobs, in that order.
\<close>

theorem process_drains_in_order:
  assumes "handler q = None"
  shows "pending (add_all ds q) = pending q @ numbered (nextId q) ds \<and>
         map (data \<circ> fst) (numbered (nextId q) ds) = map fst ds \<and>
         pending (process h (add_all ds q)) = [] \<and>
         started (trace (process h (add_all ds q))) =
           started (trace q) @ map fst (pending (add_all ds q))"
proof -
  have "map (data \<circ> fst) (numbered i ds) = map fst ds" for i
    by (induction i ds rule: numbered.induct) simp_all
  with add_all_buffers[OF assms(1), of ds] process_drains[of h "add_all ds q"]
  show ?thesis by simp
qed

theorem process_drains_in_order_witness:
  "pending (add_all [(''a'', no_options), (''b'', no_options), (''c'', no_options)] new_queue) =
     [(\<lparr>job_id = 1, data = ''a''\<rparr>, no_options), (\<lparr>job_id = 2, data = ''b''\<rparr>, no_options),
      (\<lparr>job_id = 3, data = ''c''\<rparr>, no_options)] \<and>
   pending (process ok_handler
     (add_all [(''a'', no_options), (''b'', no_options), (''c'', no_options)] new_queue)) = [] \<and>
   started (trace (process ok_handler
     (add_all [(''a'', no_options), (''b'', no_options), (''c'', no_options)] new_queue))) =
     [\<lparr>job_id = 1, data = ''a''\<rparr>, \<lparr>job_id = 2, data = ''b''\<rparr>, \<lparr>job_id = 3, data = ''c''\<rparr>]"
proof -
  have none: "handler (new_queue :: string in_memory_queue) = None"
    by (simp add: new_queue_def)
  have start: "nextId (new_queue :: string in_memory_queue) = 1"
    "pending (new_queue :: string in_memory_queue) = []"
    "trace (new_queue :: string in_memory_queue) = []"
    by (simp_all add: new_queue_def)
  show ?thesis
    using process_drains_in_order[OF none,
        of "[(''a'', no_options), (''b'', no_options), (''c'', no_options)]" ok_handler]
    by (simp add: start)
qed


text \<open>
  C9, as the code has it. A job whose options name no \<^verbatim>\<open>attempts\<close> is executed with one
  attempt: the handler is called exactly once, and when that call fails the job is counted as
  failed at once.
\<close>

theorem attempts_default_is_one:
  assumes "attempts options = None" and "handler q = Some h"
    and "execute job options q = (r, q')"
  shows "handler_calls (trace q') = handler_calls (trace q) @ [(job, 1)] \<and>
         (h job 1 \<noteq> Resolves \<longrightarrow>
            failed (counts q') = failed (counts q) + 1 \<and>
            completed (counts q') = completed (counts q))"
  using assms by (rule single_attempt_run)

theorem attempts_default_is_one_witness:
  "handler_calls (trace (snd (execute demo_job no_options
      (watched_queue (quiet_listener ''c'') (quiet_listener ''f'') (quiet_listener ''e'') flaky_handler))))
     = [(demo_job, 1)] \<and>
   failed (counts (snd (execute demo_job no_options
      (watched_queue (quiet_listener ''c'') (quiet_listener ''f'') (quiet_listener ''e'') flaky_handler))))
     = 1"
  using attempts_default_is_one[where options = no_options and h = flaky_handler and job = demo_job
      and q = "watched_queue (quiet_listener ''c'') (quiet_listener ''f'') (quiet_listener ''e'') flaky_handler",
      OF _ _ prod.collapse[symmetric]]
  by (simp add: watched_queue_simps no_options_def flaky_handler_def)

text \<open>
  C9 as stated fails: with no \<^verbatim>\<open>attempts\<close> in the options a handler that always fails is
  called once, not three times, before the job is counted as failed.
\<close>

theorem attempts_default_three_counterexample:
  "handler_calls (trace (snd (execute demo_job no_options
      (watched_queue (quiet_listener ''c'') (quiet_listener ''f'') (quiet_listener ''e'') failing_handler))))
     = [(demo_job, 1)] \<and>
   failed (counts (snd (execute demo_job no_options
      (watched_queue (quiet_listener ''c'') (quiet_listener ''f'') (quiet_listener ''e'') failing_handler))))
     = 1"
  by code_simp


section \<open>Properties of the webhook route\<close>

text \<open>
  The switch has two clauses with the label \<^verbatim>\<open>'phone.callee_call_log_completed'\<close>. The first
  one only logs; the second one, which would enqueue a sales-call job, is never entered.
\<close>

lemma call_log_completed_never_enqueues:
  "event ev = ''phone.callee_call_log_completed'' \<Longrightarrow> snd (dispatch ev svc) = svc"
  by (simp add: dispatch_def Let_def split: option.splits list.splits)


text \<open>
  C1. The claim asks for a sales-call job on the sales-call queue when a call-log-completed
  event arrives whose first entry has a result other than "Missed" and "Voicemail". On the
  event that scripts/verify-sales-call.ts sends first (result "Recorded") the route answers
  without an error and leaves the sales-call queue as it was: nothing is enqueued.
\<close>

theorem call_log_completed_not_enqueued:
  "dispatch recorded_call_log new_queue_service = (None, new_queue_service) \<and>
   e_result (hd (the (o_call_logs (object recorded_call_log)))) = Some ''Recorded'' \<and>
   pending (salesCallQueue (snd (dispatch recorded_call_log new_queue_service))) = [] \<and>
   nextId (salesCallQueue (snd (dispatch recorded_call_log new_queue_service))) = 1 \<and>
   trace (salesCallQueue (snd (dispatch recorded_call_log new_queue_service))) = []"
  by (simp add: dispatch_def recorded_call_log_def empty_object_def empty_entry_def Let_def
      new_queue_service_def new_queue_def)


text \<open>
  C10. A call-ended event (callee or caller side) whose payload object has neither a
  \<^verbatim>\<open>handup_result\<close> nor a \<^verbatim>\<open>result\<close> field enqueues nothing: every queue is left as it was,
  whatever the request headers are.
\<close>

theorem ended_without_result_ignored:
  assumes "event ev = ''phone.callee_ended'' \<or> event ev = ''phone.caller_ended''"
    and "o_handup_result (object ev) = None" and "o_result (object ev) = None"
  shows "dispatch ev svc = (None, svc) \<and>
         snd (post_webhook_zoom valid
                \<lparr>x_zm_request_timestamp = ts, x_zm_signature = sg, body = ev\<rparr> svc) = svc"
proof -
  have d: "dispatch ev svc = (None, svc)"
    using assms
    by (auto simp: dispatch_def Let_def or_else_def or_default_def truthy_def toLowerCase_def)
  then show ?thesis by (simp add: post_webhook_zoom_def)
qed

theorem ended_without_result_ignored_witness:
  "dispatch ended_without_result new_queue_service = (None, new_queue_service) \<and>
   post_webhook_zoom (\<lambda>ev ts sg. True)
     \<lparr>x_zm_request_timestamp = Some ''1700000000'', x_zm_signature = Some ''v0=abc'',
      body = ended_without_result\<rparr> new_queue_service =
     (Response 200 ''Webhook received'', new_queue_service)"
proof -
  have tag: "event ended_without_result = ''phone.callee_ended'' \<or>
      event ended_without_result = ''phone.caller_ended''"
    by (simp add: ended_without_result_def)
  have none: "o_handup_result (object ended_without_result) = None"
    "o_result (object ended_without_result) = None"
    by (simp_all add: ended_without_result_def empty_object_def)
  from ended_without_result_ignored[OF tag none, of new_queue_service]
  show ?thesis by (simp add: post_webhook_zoom_def truthy_def)
qed

section \<open>GraphService and the processors, step by step\<close>

lemma link_backs_log [simp]:
  "link_backs (log_error line w) = link_backs w" "link_backs (log_warn line w) = link_backs w"
  "link_backs (sleep ms w) = link_backs w"
  by (simp_all add: link_backs_def log_error_def log_warn_def sleep_def)

lemma send_link_backs:
  "send r w = (x, w') \<Longrightarrow> link_backs w' = link_backs w @ (if is_link_back r then [r] else [])"
  by (auto simp: send_def link_backs_def)

lemma get_items_link_backs:
  "get_items_by_call_id l c w = (r, w') \<Longrightarrow> link_backs w' = link_backs w"
  by (auto simp: get_items_by_call_id_def is_link_back_def split: prod.splits option.splits
      dest!: send_link_backs)

lemma sent_set_list_items [simp]: "sent (set_list_items l its w) = sent w"
  by (simp add: set_list_items_def split: sp_list.splits)

lemma link_backs_set_list_items [simp]:
  "link_backs (set_list_items l its w) = link_backs w"
  by (simp add: link_backs_def set_list_items_def split: sp_list.splits)

lemma patch_item_link_backs:
  "patch_item_fields l i u w = (r, w') \<Longrightarrow>
     link_backs w' = link_backs w @ (if is_link_back (PatchItem l i u) then [PatchItem l i u] else [])"
  by (auto simp: patch_item_fields_def split: prod.splits option.splits if_splits
      dest!: send_link_backs)

lemma post_item_link_backs:
  "post_item l f w = (r, w') \<Longrightarrow> link_backs w' = link_backs w"
  by (auto simp: post_item_def is_link_back_def Let_def link_backs_def
      split: prod.splits option.splits dest!: send_link_backs)

lemma post_task_link_backs:
  "post_task p t d w = (r, w') \<Longrightarrow> link_backs w' = link_backs w"
  by (auto simp: post_task_def is_link_back_def Let_def link_backs_def
      split: prod.splits option.splits dest!: send_link_backs)

lemma get_task_details_link_backs:
  "get_task_details i w = (r, w') \<Longrightarrow> link_backs w' = link_backs w"
  by (auto simp: get_task_details_def is_link_back_def
      split: prod.splits option.splits dest!: send_link_backs)

lemma patch_task_details_link_backs:
  "patch_task_details i e d w = (r, w') \<Longrightarrow> link_backs w' = link_backs w"
  by (auto simp: patch_task_details_def is_link_back_def link_backs_def
      split: prod.splits option.splits if_splits dest!: send_link_backs)

lemma post_teams_link_backs:
  "post_teams_webhook t w = (r, w') \<Longrightarrow> link_backs w' = link_backs w"
  by (auto simp: post_teams_webhook_def is_link_back_def link_backs_def
      split: prod.splits option.splits dest!: send_link_backs)

lemma createSalesLeadItem_link_backs:
  "createSalesLeadItem item w = (r, w') \<Longrightarrow> link_backs w' = link_backs w"
  by (auto simp: createSalesLeadItem_def Let_def is_link_back_def
      split: if_splits prod.splits sum.splits list.splits option.splits
      dest!: get_items_link_backs post_item_link_backs patch_item_link_backs)

lemma patch_attempt_link_backs:
  "patch_attempt i d ex w = (r, w') \<Longrightarrow> link_backs w' = link_backs w"
  by (auto simp: patch_attempt_def Let_def split: prod.splits sum.splits
      dest!: get_task_details_link_backs patch_task_details_link_backs)

lemma patch_with_retry_link_backs:
  "patch_with_retry n i d ex w = (r, w') \<Longrightarrow> link_backs w' = link_backs w"
proof (induction n arbitrary: w)
  case 0
  then show ?case by simp
next
  case (Suc n)
  obtain x w1 where a: "patch_attempt i d ex w = (x, w1)"
    by (cases "patch_attempt i d ex w")
  note l1 = patch_attempt_link_backs[OF a]
  show ?case
  proof (cases x)
    case None
    with Suc.prems a l1 show ?thesis by simp
  next
    case (Some err)
    show ?thesis
    proof (cases "n = 0")
      case True
      with Suc.prems a l1 Some show ?thesis by (auto simp: Let_def)
    next
      case False
      with Suc.prems a Some have
        "patch_with_retry n i d ex (sleep 1500 (log_warn
           (''! Planner update failed (attempt '' @ digit (4 - Suc n) @ ''): '' @ message err) w1)) = (r, w')"
        by (simp add: Let_def)
      from Suc.IH[OF this] l1 show ?thesis by simp
    qed
  qed
qed

lemma createPlannerTask_link_backs:
  "createPlannerTask cfg title details due ex w = (r, w') \<Longrightarrow> link_backs w' = link_backs w"
  by (auto simp: createPlannerTask_def Let_def
      split: if_splits prod.splits sum.splits option.splits
      dest!: post_task_link_backs patch_with_retry_link_backs)

lemma postToTeamsChannel_link_backs:
  "postToTeamsChannel env cfg msg w = (r, w') \<Longrightarrow> link_backs w' = link_backs w"
  by (auto simp: postToTeamsChannel_def split: if_splits prod.splits option.splits
      dest!: post_teams_link_backs)

lemma lead_with_task_link_back:
  assumes "lead_with_task env cfg item title details notify msg w = (r, w')"
    and "link_backs w' \<noteq> link_backs w"
  shows "r = None"
proof -
  obtain x w1 where a: "createSalesLeadItem item w = (x, w1)"
    by (cases "createSalesLeadItem item w")
  note l1 = createSalesLeadItem_link_backs[OF a]
  show ?thesis
  proof (cases x)
    case (Inl e)
    with assms a l1 show ?thesis by (simp add: lead_with_task_def)
  next
    case (Inr p)
    obtain lid ex where p: "p = (lid, ex)" by (cases p)
    obtain y w2 where b: "createPlannerTask cfg title details (Some (now env + 86400000)) ex w1 = (y, w2)"
      by (cases "createPlannerTask cfg title details (Some (now env + 86400000)) ex w1")
    note l2 = createPlannerTask_link_backs[OF b]
    show ?thesis
    proof (cases y)
      case (Inl e)
      with assms a b l1 l2 Inr p show ?thesis by (simp add: lead_with_task_def)
    next
      case (Inr tid)
      with assms(1) a b \<open>x = Inr p\<close> p show ?thesis
        by (auto simp: lead_with_task_def Let_def split: if_splits prod.splits option.splits)
    qed
  qed
qed

lemma processMissedCall_link_back:
  assumes "processMissedCall env cfg job w = (r, w')" and "link_backs w' \<noteq> link_backs w"
  shows "r = None"
  using assms
  by (auto simp: processMissedCall_def Let_def
      split: option.splits sum.splits prod.splits dest: lead_with_task_link_back)

lemma processVoicemail_link_back:
  assumes "processVoicemail env cfg job w = (r, w')" and "link_backs w' \<noteq> link_backs w"
  shows "r = None"
  using assms
  by (auto simp: processVoicemail_def Let_def
      split: option.splits sum.splits prod.splits dest: lead_with_task_link_back)


lemma link_back_result:
  "fst (updateSalesLeadPlannerTaskId itemId taskId w) = None"
  by (simp add: updateSalesLeadPlannerTaskId_def split: prod.splits option.splits)

lemma link_back_failure_logged:
  "faults w (length (sent w)) = Some e \<Longrightarrow>
   updateSalesLeadPlannerTaskId itemId taskId w =
     (None, log_error (''Error linking Planner Task to Sales Lead: '' @ message e)
        (w\<lparr>sent := sent w @ [PatchItem SalesLeads itemId [(''PlannerTaskId'', FStr taskId)]]\<rparr>))"
  by (simp add: updateSalesLeadPlannerTaskId_def patch_item_fields_def send_def)

lemma missed_call_link_fault_run:
  "link_backs (snd (processMissedCall test_env test_config missed_call_job (new_world (fails_at 5)))) =
     [PatchItem SalesLeads ''i'' [(''PlannerTaskId'', FStr ''ix'')]]"
  "link_backs (new_world (fails_at 5)) = []"
  "faults (new_world (fails_at 5)) 5 = Some (ErrorObj ''Service Unavailable'')"
  "map (\<lambda>it. item_fields it ''PlannerTaskId'')
     (salesLeadsList (snd (processMissedCall test_env test_config missed_call_job
        (new_world (fails_at 5))))) = [None]"
  "console (snd (processMissedCall test_env test_config missed_call_job (new_world (fails_at 5)))) =
     [ConsoleError ''Error linking Planner Task to Sales Lead: Service Unavailable'']"
  by code_simp+

lemma details_reads_log [simp]:
  "details_reads (log_error line w) = details_reads w"
  "details_reads (log_warn line w) = details_reads w"
  "details_reads (sleep ms w) = details_reads w"
  by (simp_all add: details_reads_def log_error_def log_warn_def sleep_def)

lemma patch_attempt_reads:
  "patch_attempt i d ex w = (r, w') \<Longrightarrow> details_reads w' = Suc (details_reads w)"
  by (auto simp: patch_attempt_def get_task_details_def patch_task_details_def send_def
      details_reads_def is_details_read_def Let_def
      split: prod.splits sum.splits option.splits if_splits)

lemma patch_with_retry_reads:
  "patch_with_retry n i d ex w = (r, w') \<Longrightarrow> details_reads w' \<le> details_reads w + n"
proof (induction n arbitrary: w)
  case 0
  then show ?case by simp
next
  case (Suc n)
  obtain x w1 where a: "patch_attempt i d ex w = (x, w1)"
    by (cases "patch_attempt i d ex w")
  note l1 = patch_attempt_reads[OF a]
  show ?case
  proof (cases x)
    case None
    with Suc.prems a l1 show ?thesis by simp
  next
    case (Some err)
    show ?thesis
    proof (cases "n = 0")
      case True
      with Suc.prems a l1 Some show ?thesis by (auto simp: Let_def)
    next
      case False
      with Suc.prems a Some have
        "patch_with_retry n i d ex (sleep 1500 (log_warn
           (''! Planner update failed (attempt '' @ digit (4 - Suc n) @ ''): '' @ message err) w1)) = (r, w')"
        by (simp add: Let_def)
      from Suc.IH[OF this] l1 show ?thesis by simp
    qed
  qed
qed

lemma post_task_reads:
  "post_task p t d w = (r, w') \<Longrightarrow> details_reads w' = details_reads w"
  by (auto simp: post_task_def send_def details_reads_def is_details_read_def Let_def
      split: option.splits)

lemma createPlannerTask_reads:
  "createPlannerTask cfg title details due ex w = (r, w') \<Longrightarrow> details_reads w' \<le> details_reads w + 3"
  by (auto simp: createPlannerTask_def Let_def
      split: if_splits prod.splits sum.splits option.splits
      dest!: patch_with_retry_reads post_task_reads)

text \<open>A read of the details that succeeds, followed by a patch that the store refuses.\<close>

lemma patch_attempt_conflict:
  assumes "find (\<lambda>t. pt_id t = i) (plannerTasks w) = Some t"
    and "faults w (length (sent w)) = None" and "faults w (Suc (length (sent w))) = Some e"
  shows "\<exists>w1. patch_attempt i d ex w = (Some e, w1) \<and> plannerTasks w1 = plannerTasks w \<and>
           faults w1 = faults w \<and> length (sent w1) = length (sent w) + 2 \<and> waits w1 = waits w"
  using assms
  by (simp add: patch_attempt_def get_task_details_def patch_task_details_def send_def Let_def)

lemma patch_attempt_success:
  assumes "find (\<lambda>t. pt_id t = i) (plannerTasks w) = Some t"
    and "faults w (length (sent w)) = None" and "faults w (Suc (length (sent w))) = None"
  shows "\<exists>w1. patch_attempt i d ex w = (None, w1) \<and> waits w1 = waits w \<and>
           length (sent w1) = length (sent w) + 2"
  using assms
  by (simp add: patch_attempt_def get_task_details_def patch_task_details_def send_def Let_def)

lemma retry_again:
  "patch_attempt i d ex w = (Some err, w1) \<Longrightarrow>
   \<exists>w2. patch_with_retry (Suc (Suc r)) i d ex w = patch_with_retry (Suc r) i d ex w2 \<and>
        plannerTasks w2 = plannerTasks w1 \<and> faults w2 = faults w1 \<and>
        sent w2 = sent w1 \<and> waits w2 = waits w1 @ [1500]"
  by (rule exI[of _ "sleep 1500 (log_warn (''! Planner update failed (attempt '' @
        digit (4 - Suc (Suc r)) @ ''): '' @ message err) w1)"])
     (simp add: Let_def sleep_def log_warn_def)

lemma retry_last:
  "patch_attempt i d ex w = (x, w1) \<Longrightarrow>
   \<exists>w2. patch_with_retry (Suc 0) i d ex w = (x, w2) \<and> sent w2 = sent w1 \<and> waits w2 = waits w1"
  by (cases x) (simp_all add: Let_def log_warn_def)

lemma retry_after_two_conflicts:
  assumes task: "find (\<lambda>t. pt_id t = i) (plannerTasks w) = Some t"
    and n: "n = length (sent w)"
    and reads: "faults w n = None" "faults w (n + 2) = None" "faults w (n + 4) = None"
    and conflicts: "faults w (n + 1) = Some e1" "faults w (n + 3) = Some e2"
    and run: "patch_with_retry 3 i d ex w = (r, w')"
  shows "waits w' = waits w @ [1500, 1500] \<and> length (sent w') = n + 6 \<and>
         r = faults w (n + 5)"
proof -
  have fs: "faults w (Suc n) = Some e1" "faults w (Suc (n + 2)) = Some e2"
    "faults w (Suc (n + 4)) = faults w (n + 5)"
    using conflicts by (simp_all add: eval_nat_numeral)
  obtain w1 where a1: "patch_attempt i d ex w = (Some e1, w1)"
    and f1: "plannerTasks w1 = plannerTasks w" "faults w1 = faults w"
      "length (sent w1) = n + 2" "waits w1 = waits w"
    using patch_attempt_conflict[OF task, of e1 d ex] reads fs n by auto
  obtain w1' where s1: "patch_with_retry 3 i d ex w = patch_with_retry 2 i d ex w1'"
    and g1: "plannerTasks w1' = plannerTasks w" "faults w1' = faults w"
      "length (sent w1') = n + 2" "waits w1' = waits w @ [1500]"
    using retry_again[OF a1, of "Suc 0"] f1 by (auto simp: numeral_3_eq_3 numeral_2_eq_2)
  have task1: "find (\<lambda>t. pt_id t = i) (plannerTasks w1') = Some t"
    using task g1 by simp
  obtain w2 where a2: "patch_attempt i d ex w1' = (Some e2, w2)"
    and f2: "plannerTasks w2 = plannerTasks w" "faults w2 = faults w"
      "length (sent w2) = n + 4" "waits w2 = waits w @ [1500]"
    using patch_attempt_conflict[OF task1, of e2 d ex] reads fs g1 by auto
  obtain w2' where s2: "patch_with_retry 2 i d ex w1' = patch_with_retry 1 i d ex w2'"
    and g2: "plannerTasks w2' = plannerTasks w" "faults w2' = faults w"
      "length (sent w2') = n + 4" "waits w2' = waits w @ [1500, 1500]"
    using retry_again[OF a2, of 0] f2 by (auto simp: numeral_2_eq_2)
  have task2: "find (\<lambda>t. pt_id t = i) (plannerTasks w2') = Some t"
    using task g2 by simp
  have "\<exists>w3. patch_attempt i d ex w2' = (faults w (n + 5), w3) \<and>
      length (sent w3) = n + 6 \<and> waits w3 = waits w @ [1500, 1500]"
  proof (cases "faults w (n + 5)")
    case None
    with patch_attempt_success[OF task2, of d ex] reads fs g2 show ?thesis by auto
  next
    case (Some e3)
    with patch_attempt_conflict[OF task2, of e3 d ex] reads fs g2 show ?thesis by auto
  qed
  then obtain w3 where a3: "patch_attempt i d ex w2' = (faults w (n + 5), w3)"
    and f3: "length (sent w3) = n + 6" "waits w3 = waits w @ [1500, 1500]"
    by blast
  from retry_last[OF a3] obtain w4 where
    "patch_with_retry 1 i d ex w2' = (faults w (n + 5), w4)" "sent w4 = sent w3" "waits w4 = waits w3"
    by auto
  with run s1 s2 f3 show ?thesis by simp
qed


lemma createPlannerTask_existing:
  assumes "tid \<noteq> []" and "details \<noteq> []"
    and "createPlannerTask cfg title details due (Some tid) w = (r, w')"
  shows "\<exists>x w1. patch_with_retry 3 tid details (Some tid) w = (x, w1) \<and>
           r = (case x of None \<Rightarrow> Inr tid | Some e \<Rightarrow> Inl e) \<and>
           sent w' = sent w1 \<and> waits w' = waits w1"
  using assms
  by (auto simp: createPlannerTask_def Let_def truthy_def log_error_def
      split: prod.splits option.splits)

lemma createPlannerTask_new:
  assumes "details \<noteq> []" and "faults w (length (sent w)) = None"
    and "createPlannerTask cfg title details due None w = (r, w')"
  shows "\<exists>x w0 w1 t. patch_with_retry 3 (fresh_id (issued w)) details None w0 = (x, w1) \<and>
           find (\<lambda>t. pt_id t = fresh_id (issued w)) (plannerTasks w0) = Some t \<and>
           faults w0 = faults w \<and> length (sent w0) = Suc (length (sent w)) \<and> waits w0 = waits w \<and>
           r = (case x of None \<Rightarrow> Inr (fresh_id (issued w)) | Some e \<Rightarrow> Inl e) \<and>
           sent w' = sent w1 \<and> waits w' = waits w1"
proof -
  let ?new = "\<lparr>pt_id = fresh_id (issued w), pt_planId = plannerPlanId cfg, pt_title = title,
      pt_dueDateTime = due, pt_description = None, pt_etag = 0\<rparr>"
  let ?w0 = "w\<lparr>sent := sent w @ [PostTask (plannerPlanId cfg) title due],
      plannerTasks := plannerTasks w @ [?new], issued := Suc (issued w)\<rparr>"
  have post: "post_task (plannerPlanId cfg) title due w = (Inr (fresh_id (issued w)), ?w0)"
    using assms(2) by (simp add: post_task_def send_def Let_def)
  have "find (\<lambda>t. pt_id t = fresh_id (issued w)) (plannerTasks w @ [?new]) \<noteq> None"
    by (auto simp: find_None_iff intro!: exI[of _ ?new])
  then obtain t where t: "find (\<lambda>t. pt_id t = fresh_id (issued w)) (plannerTasks ?w0) = Some t"
    by auto
  obtain x w1 where run: "patch_with_retry 3 (fresh_id (issued w)) details None ?w0 = (x, w1)"
    by (cases "patch_with_retry 3 (fresh_id (issued w)) details None ?w0")
  have "r = (case x of None \<Rightarrow> Inr (fresh_id (issued w)) | Some e \<Rightarrow> Inl e) \<and>
      sent w' = sent w1 \<and> waits w' = waits w1"
    using assms(1,3) post run
    by (auto simp: createPlannerTask_def Let_def truthy_def log_error_def fresh_id_def
        split: option.splits)
  with run t show ?thesis
    by (intro exI[of _ x] exI[of _ ?w0] exI[of _ w1] exI[of _ t]) simp
qed


lemma truthy_Some [simp]: "truthy (Some c) = (c \<noteq> [])"
  by (simp add: truthy_def)













section \<open>Properties of the upsert protocol\<close>




text \<open>
  The quote character matters: a call id with a doubled quote is read by the store as the id
  with a single quote, the record that the first call creates is not found by the second
  call, and two records result.
\<close>

lemma upsert_quoted_call_id_twice:
  "map (\<lambda>it. (item_id it, item_fields it ''CallId''))
     (salesCallsList (snd (createSalesCallItem (call_logged\<lparr>sc_callId := Some [CHR ''a'', CHR 0x27, CHR 0x27, CHR ''b'']\<rparr>)
          (snd (createSalesCallItem (call_logged\<lparr>sc_callId := Some [CHR ''a'', CHR 0x27, CHR 0x27, CHR ''b'']\<rparr>)
            (new_world no_faults)))))) =
     [(''i'', Some (FStr [CHR ''a'', CHR 0x27, CHR 0x27, CHR ''b''])),
      (''ix'', Some (FStr [CHR ''a'', CHR 0x27, CHR 0x27, CHR ''b'']))]"
  by code_simp


text \<open>
  C7. The detail patch of a follow-up task reads the details at most three times. When the
  reads succeed and the patches of the first and of the second attempt are refused, the
  operation waits 1500 ms after each of them and makes a third attempt: if that patch is
  accepted the task id is returned and no error surfaces; if it is refused too, its error is
  thrown to the caller and no further request is made. This holds for an existing task and
  for a task that the call has just created. An error that leaves \<^verbatim>\<open>createPlannerTask\<close> is the
  error with which the steps of the job handler end.
\<close>

theorem details_patch_three_attempts:
  assumes "details \<noteq> []"
    and "createPlannerTask cfg title details due ex w = (r, w')"
    and "faults w n = None" and "faults w (n + 1) = Some e1"
    and "faults w (n + 2) = None" and "faults w (n + 3) = Some e2"
    and "faults w (n + 4) = None"
  shows "details_reads w' \<le> details_reads w + 3 \<and>
         (ex = Some tid \<and> tid \<noteq> [] \<and> find (\<lambda>t. pt_id t = tid) (plannerTasks w) = Some t \<and>
          n = length (sent w) \<longrightarrow>
            r = (case faults w (n + 5) of None \<Rightarrow> Inr tid | Some e3 \<Rightarrow> Inl e3) \<and>
            waits w' = waits w @ [1500, 1500] \<and> length (sent w') = n + 6) \<and>
         (ex = None \<and> faults w (length (sent w)) = None \<and> n = length (sent w) + 1 \<longrightarrow>
            r = (case faults w (n + 5) of None \<Rightarrow> Inr (fresh_id (issued w)) | Some e3 \<Rightarrow> Inl e3) \<and>
            waits w' = waits w @ [1500, 1500] \<and> length (sent w') = n + 6) \<and>
         (r = Inl e \<and> due = Some (now env + 86400000) \<and>
          createSalesLeadItem item w0 = (Inr (lid, ex), w) \<longrightarrow>
            fst (lead_with_task env cfg item title details notify msg w0) = Some e)"
proof (intro conjI impI)
  show "details_reads w' \<le> details_reads w + 3"
    using assms(2) by (rule createPlannerTask_reads)
next
  assume a: "ex = Some tid \<and> tid \<noteq> [] \<and> find (\<lambda>t. pt_id t = tid) (plannerTasks w) = Some t \<and>
      n = length (sent w)"
  then obtain x w1 where run: "patch_with_retry 3 tid details (Some tid) w = (x, w1)"
    and res: "r = (case x of None \<Rightarrow> Inr tid | Some e \<Rightarrow> Inl e)" "sent w' = sent w1" "waits w' = waits w1"
    using createPlannerTask_existing[of tid details cfg title due w r w'] assms(1,2) by auto
  from retry_after_two_conflicts[OF _ _ assms(3,5,7,4,6) run, of t] a
  have "waits w1 = waits w @ [1500, 1500] \<and> length (sent w1) = n + 6 \<and> x = faults w (n + 5)"
    by simp
  with res show
    "r = (case faults w (n + 5) of None \<Rightarrow> Inr tid | Some e3 \<Rightarrow> Inl e3)"
    "waits w' = waits w @ [1500, 1500]" "length (sent w') = n + 6"
    by simp_all
next
  assume a: "ex = None \<and> faults w (length (sent w)) = None \<and> n = length (sent w) + 1"
  then obtain x w0 w1 t0 where
    run: "patch_with_retry 3 (fresh_id (issued w)) details None w0 = (x, w1)"
    and t0: "find (\<lambda>t. pt_id t = fresh_id (issued w)) (plannerTasks w0) = Some t0"
    and w0: "faults w0 = faults w" "length (sent w0) = Suc (length (sent w))" "waits w0 = waits w"
    and res: "r = (case x of None \<Rightarrow> Inr (fresh_id (issued w)) | Some e \<Rightarrow> Inl e)"
      "sent w' = sent w1" "waits w' = waits w1"
    using createPlannerTask_new[of details w cfg title due r w'] assms(1,2) by auto
  have "waits w1 = waits w0 @ [1500, 1500] \<and> length (sent w1) = n + 6 \<and> x = faults w0 (n + 5)"
    using retry_after_two_conflicts[OF t0 _ _ _ _ _ _ run, of n e1 e2] assms(3-7) a w0
    by simp
  with res w0 show
    "r = (case faults w (n + 5) of None \<Rightarrow> Inr (fresh_id (issued w)) | Some e3 \<Rightarrow> Inl e3)"
    "waits w' = waits w @ [1500, 1500]" "length (sent w') = n + 6"
    by simp_all
next
  assume "r = Inl e \<and> due = Some (now env + 86400000) \<and>
      createSalesLeadItem item w0 = (Inr (lid, ex), w)"
  with assms(2) show "fst (lead_with_task env cfg item title details notify msg w0) = Some e"
    by (simp add: lead_with_task_def)
qed


theorem details_patch_three_attempts_witness:
  "fst (createPlannerTask test_config ''Follow up'' ''second note'' None (Some ''T1'')
          (task_world (conflicts [1, 3]))) = Inr ''T1'' \<and>
   waits (snd (createPlannerTask test_config ''Follow up'' ''second note'' None (Some ''T1'')
          (task_world (conflicts [1, 3])))) = [1500, 1500] \<and>
   fst (createPlannerTask test_config ''Follow up'' ''second note'' None (Some ''T1'')
          (task_world (conflicts [1, 3, 5]))) = Inl (ErrorObj ''Conflict'') \<and>
   length (sent (snd (createPlannerTask test_config ''Follow up'' ''second note'' None (Some ''T1'')
          (task_world (conflicts [1, 3, 5]))))) = 6 \<and>
   fst (processMissedCall test_env test_config missed_call_job (new_world (conflicts [4, 6, 8]))) =
     Some (ErrorObj ''Conflict'')"
proof -
  have task: "find (\<lambda>t. pt_id t = ''T1'') (plannerTasks (task_world f)) =
      Some \<lparr>pt_id = ''T1'', pt_planId = ''plan-1'', pt_title = ''Follow up'', pt_dueDateTime = None,
          pt_description = Some ''first note'', pt_etag = 7\<rparr>"
    "length (sent (task_world f)) = 0" "waits (task_world f) = []"
    "faults (task_world f) = f" for f
    by (simp_all add: task_world_def new_world_def)
  have "''second note'' \<noteq> ''''" by simp
  note T = details_patch_three_attempts[OF this prod.collapse[symmetric], where n = 0
      and ?e1.0 = "ErrorObj ''Conflict''" and ?e2.0 = "ErrorObj ''Conflict''" and tid = "''T1''"]
  have handler: "fst (processMissedCall test_env test_config missed_call_job
      (new_world (conflicts [4, 6, 8]))) = Some (ErrorObj ''Conflict'')"
    by code_simp
  show ?thesis
    using T[where cfg = test_config and title = "''Follow up''" and due = None
        and ex = "Some ''T1''" and w = "task_world (conflicts [1, 3])"]
      T[where cfg = test_config and title = "''Follow up''" and due = None
        and ex = "Some ''T1''" and w = "task_world (conflicts [1, 3, 5])"]
      handler
    by (simp add: task conflicts_def)
qed


text \<open>
  C8. The link-back never throws: whatever the store answers, it returns normally, and a
  refused request is logged. In every run of the missed-call handler and of the voicemail
  handler in which the link-back request is sent, successful or not, the handler completes
  without an error.
\<close>

theorem link_back_failure_never_propagates:
  "fst (updateSalesLeadPlannerTaskId itemId taskId w) = None \<and>
   (faults w (length (sent w)) = Some e \<longrightarrow>
      snd (updateSalesLeadPlannerTaskId itemId taskId w) =
        log_error (''Error linking Planner Task to Sales Lead: '' @ message e)
          (w\<lparr>sent := sent w @ [PatchItem SalesLeads itemId [(''PlannerTaskId'', FStr taskId)]]\<rparr>)) \<and>
   (link_backs (snd (processMissedCall env cfg job w)) \<noteq> link_backs w \<longrightarrow>
      fst (processMissedCall env cfg job w) = None) \<and>
   (link_backs (snd (processVoicemail env cfg job w)) \<noteq> link_backs w \<longrightarrow>
      fst (processVoicemail env cfg job w) = None)"
  using link_back_result[of itemId taskId w] link_back_failure_logged[of w e itemId taskId]
    processMissedCall_link_back[OF prod.collapse[symmetric], of env cfg job w]
    processVoicemail_link_back[OF prod.collapse[symmetric], of env cfg job w]
  by simp

theorem link_back_failure_never_propagates_witness:
  "faults (new_world (fails_at 5)) 5 = Some (ErrorObj ''Service Unavailable'') \<and>
   link_backs (snd (processMissedCall test_env test_config missed_call_job (new_world (fails_at 5)))) =
     [PatchItem SalesLeads ''i'' [(''PlannerTaskId'', FStr ''ix'')]] \<and>
   console (snd (processMissedCall test_env test_config missed_call_job (new_world (fails_at 5)))) =
     [ConsoleError ''Error linking Planner Task to Sales Lead: Service Unavailable''] \<and>
   fst (processMissedCall test_env test_config missed_call_job (new_world (fails_at 5))) = None"
  using link_back_failure_never_propagates[of _ _ "new_world (fails_at 5)" _ test_env test_config
      missed_call_job]
  by (simp add: missed_call_link_fault_run)


end
